theory Spec2Isabelle
  imports Complex_Main "HOL-Library.Sublist"
begin

section \<open>Covered regions: \<open>isSupportedState\<close> and \<open>getCoveredStates\<close>\<close>

text \<open>
  \<open>apps/server/service/helpers/isSupportedState.ts\<close>: membership in the array literal
  of the source (Array.prototype.includes on strings is string equality).
\<close>

definition isSupportedState :: "string \<Rightarrow> bool" where
  "isSupportedState state =
     (state \<in> set [''ACT'', ''NSW'', ''NT'', ''QLD'', ''SA'', ''TAS'', ''VIC'', ''WA''])"

text \<open>
  JavaScript's \<open>String.prototype.split\<close> with a one-character separator: the empty
  string splits into one empty entry, and every separator starts a new entry.
\<close>

fun split_str :: "char \<Rightarrow> string \<Rightarrow> string list" where
  "split_str sep [] = [[]]"
| "split_str sep (c # cs) =
     (if c = sep then [] # split_str sep cs
      else (case split_str sep cs of
              w # ws \<Rightarrow> (c # w) # ws
            | [] \<Rightarrow> [[c]]))"

text \<open>
  \<open>apps/server/service/helpers/getCoveredStates.ts\<close>. The argument is the value of
  \<open>process.env.COVERED_STATES\<close> (\<open>None\<close> when the variable is unset);
  \<open>process.env.COVERED_STATES || ""\<close> maps both the unset variable and the empty
  string to the empty string.
\<close>

definition getCoveredStates :: "string option \<Rightarrow> string list" where
  "getCoveredStates env =
     (let covered = (case env of None \<Rightarrow> [] | Some v \<Rightarrow> v) in
      if covered = [] then []
      else (let states = split_str CHR '','' covered in
            if list_ex (\<lambda>state. \<not> isSupportedState state) states then []
            else states))"

text \<open>The closed region set named by the specification and by the README's table of
  valid state codes.\<close>

definition specRegions :: "string set" where
  "specRegions = {''ACT'', ''NSW'', ''NT'', ''OT'', ''QLD'', ''SA'', ''TAS'', ''VIC'', ''WA''}"


section \<open>Search pagination: \<open>validatePaginationParams\<close> and \<open>searchForAddress\<close>\<close>

text \<open>
  The pagination part of the search request body handed to the backend
  (\<open>body.from\<close> and \<open>body.size\<close>); page numbers and sizes are integers.
\<close>

record SearchBody =
  q_from :: int
  q_size :: int

text \<open>
  Modelled from the spec: \<open>service/conf\<close> is not among the sources. The default
  page size is 8; \<open>MAX_PAGE_NUMBER\<close> and \<open>MAX_PAGE_SIZE\<close> have no value in the
  specification and are parameters of the functions that read them.
\<close>

definition PAGE_SIZE :: int where
  "PAGE_SIZE = 8"

text \<open>\<open>apps/server/dist/service/index.js\<close>, \<open>validatePaginationParams\<close>; the result
  is the pair \<open>(validPage, validSize)\<close>.\<close>

definition validatePaginationParams :: "int \<Rightarrow> int \<Rightarrow> int \<Rightarrow> int \<Rightarrow> int \<times> int" where
  "validatePaginationParams MAX_PAGE_NUMBER MAX_PAGE_SIZE page sz =
     (let validPage = max 1 (min page MAX_PAGE_NUMBER);
          validSize = max 1 (min sz MAX_PAGE_SIZE)
      in (validPage, validSize))"

text \<open>\<open>apps/server/dist/service/index.js\<close>, \<open>searchForAddress\<close>: the page size
  argument is optional (\<open>None\<close> takes the default \<open>PAGE_SIZE\<close>).\<close>

definition searchForAddress :: "int \<Rightarrow> int \<Rightarrow> int \<Rightarrow> int option \<Rightarrow> SearchBody" where
  "searchForAddress MAX_PAGE_NUMBER MAX_PAGE_SIZE p pageSize =
     (let (validPage, validSize) =
            validatePaginationParams MAX_PAGE_NUMBER MAX_PAGE_SIZE p
              (case pageSize of None \<Rightarrow> PAGE_SIZE | Some s \<Rightarrow> s);
          from = (validPage - 1) * validSize
      in \<lparr>q_from = from, q_size = validSize\<rparr>)"

text \<open>
  \<open>apps/server/service/DefaultService.ts\<close> holds an older \<open>searchForAddress\<close>, a
  module-private constant that nothing calls or exports (the service that runs is
  the compiled one above, whose \<open>getAddresses\<close> calls the clamping version):
  \<open>from: (p - 1 || 0) * pageSize, size: pageSize\<close>. On integers \<open>p - 1 || 0\<close> is
  \<open>0\<close> when \<open>p - 1\<close> is \<open>0\<close> and \<open>p - 1\<close> otherwise.
\<close>

definition searchForAddress_DefaultService :: "int \<Rightarrow> int option \<Rightarrow> SearchBody" where
  "searchForAddress_DefaultService p pageSize =
     (let ps = (case pageSize of None \<Rightarrow> PAGE_SIZE | Some s \<Rightarrow> s) in
      \<lparr>q_from = (if p - 1 = 0 then 0 else p - 1) * ps, q_size = ps\<rparr>)"

section \<open>Bulk index sink: \<open>sendIndexRequest\<close>\<close>

text \<open>
  What one call of \<open>esClient.bulk\<close> produces: it throws, or it answers with a
  response whose \<open>errors\<close> and \<open>body.errors\<close> fields are truthy or not.
\<close>

record BulkResponse =
  errors :: bool
  body_errors :: bool

datatype BulkOutcome = BulkThrew | BulkAnswered BulkResponse

text \<open>
  The three environment variables read by the retry loop, each already parsed by
  \<open>Number.parseInt\<close> when set; \<open>None\<close> is the unset (or empty) variable, for which
  the source parses its default literal.
\<close>

record IndexEnv =
  ADDRESSR_INDEX_BACKOFF :: "int option"
  ADDRESSR_INDEX_BACKOFF_INCREMENT :: "int option"
  ADDRESSR_INDEX_BACKOFF_MAX :: "int option"

definition defaultIndexEnv :: IndexEnv where
  "defaultIndexEnv = \<lparr>ADDRESSR_INDEX_BACKOFF = None,
                       ADDRESSR_INDEX_BACKOFF_INCREMENT = None,
                       ADDRESSR_INDEX_BACKOFF_MAX = None\<rparr>"

definition envOr :: "int option \<Rightarrow> int \<Rightarrow> int" where
  "envOr v d = (case v of None \<Rightarrow> d | Some n \<Rightarrow> n)"

text \<open>What the loop does to the outside world, in order.\<close>

datatype 'b IndexEvent = Bulk 'b bool | Backoff int

text \<open>\<open>if (resp?.errors || resp.body?.errors) throw resp\<close>, and a throwing call,
  both reach the \<open>catch\<close> block.\<close>

definition bulkFailed :: "BulkOutcome \<Rightarrow> bool" where
  "bulkFailed out =
     (case out of BulkThrew \<Rightarrow> True | BulkAnswered r \<Rightarrow> errors r \<or> body_errors r)"

text \<open>
  The \<open>for (let count = 0; true; count++)\<close> loop of \<open>sendIndexRequest\<close>. The backend
  is a function from the number of the call to its outcome. The loop has no exit but
  a successful call, so it is run on fuel: the result is the events so far and
  whether the function has returned.
\<close>

fun sendIndexRequest_loop ::
  "IndexEnv \<Rightarrow> (nat \<Rightarrow> BulkOutcome) \<Rightarrow> 'b \<Rightarrow> bool \<Rightarrow> nat \<Rightarrow> int \<Rightarrow> nat \<Rightarrow> 'b IndexEvent list \<times> bool" where
  "sendIndexRequest_loop env backend indexingBody refresh 0 backoff count = ([], False)"
| "sendIndexRequest_loop env backend indexingBody refresh (Suc fuel) backoff count =
     (if \<not> bulkFailed (backend count) then ([Bulk indexingBody refresh], True)
      else
        (let backoff1 = backoff + envOr (ADDRESSR_INDEX_BACKOFF_INCREMENT env) 30000;
             backoff2 = min (envOr (ADDRESSR_INDEX_BACKOFF_MAX env) 600000) backoff1;
             (events, returned) =
               sendIndexRequest_loop env backend indexingBody refresh fuel backoff2 (Suc count)
         in (Bulk indexingBody refresh # Backoff backoff # events, returned)))"

text \<open>\<open>sendIndexRequest\<close> with its default arguments: \<open>initialBackoff\<close> from the
  environment, \<open>refresh = false\<close>.\<close>

definition sendIndexRequest ::
  "IndexEnv \<Rightarrow> (nat \<Rightarrow> BulkOutcome) \<Rightarrow> 'b \<Rightarrow> nat \<Rightarrow> 'b IndexEvent list \<times> bool" where
  "sendIndexRequest env backend indexingBody fuel =
     sendIndexRequest_loop env backend indexingBody False fuel
       (envOr (ADDRESSR_INDEX_BACKOFF env) 30000) 0"

text \<open>
  The delay the specification names for resubmission \<open>k\<close>, and the events of \<open>n\<close>
  failed rounds in a row starting after \<open>c\<close> failures: each submits the batch and
  then waits.
\<close>

definition backoffDelay :: "nat \<Rightarrow> int" where
  "backoffDelay k = min (30000 * int k) 600000"

definition failedRounds :: "'b \<Rightarrow> bool \<Rightarrow> nat \<Rightarrow> nat \<Rightarrow> 'b IndexEvent list" where
  "failedRounds indexingBody refresh c n =
     concat (map (\<lambda>k. [Bulk indexingBody refresh, Backoff (backoffDelay (Suc (c + k)))]) [0..<n])"

section \<open>Package metadata cache: \<open>fetchGNAFPackageData\<close>\<close>



type_synonym Headers = "string \<rightharpoonup> string"

text \<open>The entry kept under the package URL: \<open>{ body, headers, cachedAt }\<close>;
  entries written by older versions carry no \<open>cachedAt\<close>.\<close>

record CacheEntry =
  c_body :: string
  c_headers :: Headers
  cachedAt :: "int option"




text \<open>
  The age computed for a cached entry: \<open>Date.now() - created.getTime()\<close>, where
  \<open>created\<close> is \<open>new Date(cachedAt)\<close> when \<open>cachedAt\<close> is defined and
  \<open>new Date(headers.date)\<close> otherwise. \<open>parseDate\<close> stands for
  \<open>new Date(s).getTime()\<close> on a header string; \<open>None\<close> is \<open>NaN\<close> (an invalid or
  missing date).
\<close>

definition cacheCreated :: "(string \<Rightarrow> int option) \<Rightarrow> CacheEntry \<Rightarrow> int option" where
  "cacheCreated parseDate c =
     (case cachedAt c of
        Some t \<Rightarrow> Some t
      | None \<Rightarrow> (case c_headers c ''date'' of None \<Rightarrow> None | Some d \<Rightarrow> parseDate d))"

definition cacheAge :: "(string \<Rightarrow> int option) \<Rightarrow> int \<Rightarrow> CacheEntry \<Rightarrow> int option" where
  "cacheAge parseDate now c = map_option (\<lambda>t. now - t) (cacheCreated parseDate c)"


section \<open>Resumable fetcher: \<open>packages/core/utils/stream-down.ts\<close>\<close>

subsection \<open>Strings\<close>

text \<open>Decimal rendering of a number inside a template string.\<close>

function showNat :: "nat \<Rightarrow> string" where
  "showNat n = (if n < 10 then [char_of (48 + n)]
                else showNat (n div 10) @ [char_of (48 + n mod 10)])"
  by pat_completeness auto
termination
  by (relation "measure id") auto

declare showNat.simps [simp del]

definition showInt :: "int \<Rightarrow> string" where
  "showInt i = (if i < 0 then CHR ''-'' # showNat (nat (- i)) else showNat (nat i))"

text \<open>\<open>String.prototype.toLowerCase\<close> on ASCII text.\<close>

definition toLowerChar :: "char \<Rightarrow> char" where
  "toLowerChar c = (let n = (of_char c :: nat) in
                    if 65 \<le> n \<and> n \<le> 90 then char_of (n + 32) else c)"

definition toLowerCase :: "string \<Rightarrow> string" where
  "toLowerCase s = map toLowerChar s"

text \<open>\<open>String.prototype.includes\<close>.\<close>

fun includes_str :: "string \<Rightarrow> string \<Rightarrow> bool" where
  "includes_str [] sub = (sub = [])"
| "includes_str (c # cs) sub = (prefix sub (c # cs) \<or> includes_str cs sub)"

subsection \<open>Errors\<close>

text \<open>An \<open>Error\<close> object as the fetcher decorates it: the optional \<open>code\<close>, the
  message, and the \<open>requiresRestart\<close> mark of the HTTP 416 path.\<close>

record DlErr =
  code :: "string option"
  message :: string
  requiresRestart :: bool

record DownloadError =
  d_message :: string
  d_code :: "string option"
  attempts :: nat
  isRetryable :: bool
  bytesDownloaded :: nat

definition RETRYABLE_ERROR_CODES :: "string set" where
  "RETRYABLE_ERROR_CODES = set [''ECONNRESET'', ''ECONNREFUSED'', ''ETIMEDOUT'', ''ENOTFOUND'',
     ''ENETUNREACH'', ''EHOSTUNREACH'', ''EPIPE'', ''EAI_AGAIN'', ''EPROTO'',
     ''SOCKET_TIMEOUT'', ''CONNECT_TIMEOUT'', ''DATA_OVERFLOW'', ''SIZE_MISMATCH'']"

definition RETRYABLE_HTTP_STATUS_CODES :: "nat set" where
  "RETRYABLE_HTTP_STATUS_CODES = set [408, 429, 500, 502, 503, 504]"

definition CORRUPT_FILE_HTTP_STATUS_CODES :: "nat set" where
  "CORRUPT_FILE_HTTP_STATUS_CODES = set [416]"

definition isRetryableError :: "DlErr \<Rightarrow> bool" where
  "isRetryableError error =
     (if (case code error of None \<Rightarrow> False | Some c \<Rightarrow> c \<noteq> [] \<and> c \<in> RETRYABLE_ERROR_CODES)
      then True
      else (let msg = toLowerCase (message error) in
            if includes_str msg ''econnreset'' \<or> includes_str msg ''socket hang up'' \<or>
               includes_str msg ''connection reset'' \<or> includes_str msg ''network'' \<or>
               includes_str msg ''timeout'' \<or> includes_str msg ''aborted''
            then True else False))"

text \<open>\<open>calculateBackoff\<close> in exact arithmetic; \<open>rnd\<close> is the value of
  \<open>Math.random()\<close>, and \<open>Math.round\<close> rounds half up.\<close>

definition calculateBackoff :: "nat \<Rightarrow> rat \<Rightarrow> rat \<Rightarrow> rat \<Rightarrow> rat \<Rightarrow> int" where
  "calculateBackoff attempt initialBackoff maxBackoff multiplier rnd =
     (let exponentialDelay = initialBackoff * multiplier ^ attempt;
          cappedDelay = min exponentialDelay maxBackoff;
          jitter = cappedDelay * (25 / 100) * (rnd * 2 - 1)
      in \<lfloor>cappedDelay + jitter + 1 / 2\<rfloor>)"

subsection \<open>The destination file\<close>

text \<open>The file at the destination path (the one fixed by \<open>destinationPath\<close>):
  \<open>None\<close> when it does not exist, otherwise its size in bytes.\<close>

type_synonym FileState = "nat option"

definition getExistingFileSize :: "FileState \<Rightarrow> nat" where
  "getExistingFileSize f = (case f of None \<Rightarrow> 0 | Some n \<Rightarrow> n)"

definition safeDeleteFile :: "FileState \<Rightarrow> bool \<times> FileState" where
  "safeDeleteFile f = (case f of None \<Rightarrow> (False, None) | Some n \<Rightarrow> (True, None))"

record PartialFileValidation =
  resumeFromBytes :: nat
  wasDeleted :: bool

definition validatePartialFile :: "FileState \<Rightarrow> int \<Rightarrow> PartialFileValidation \<times> FileState" where
  "validatePartialFile f expectedSize =
     (let existingSize = getExistingFileSize f in
      if existingSize = 0 then (\<lparr>resumeFromBytes = 0, wasDeleted = False\<rparr>, f)
      else if expectedSize \<le> 0 then (\<lparr>resumeFromBytes = existingSize, wasDeleted = False\<rparr>, f)
      else if int existingSize \<ge> expectedSize
        then (\<lparr>resumeFromBytes = 0, wasDeleted = True\<rparr>, snd (safeDeleteFile f))
      else (\<lparr>resumeFromBytes = existingSize, wasDeleted = False\<rparr>, f))"

text \<open>\<open>fs.createWriteStream\<close> with flag \<open>a\<close> (append, creating the file when
  absent) or \<open>w\<close> (create or truncate).\<close>

definition createWriteStream :: "bool \<Rightarrow> FileState \<Rightarrow> FileState" where
  "createWriteStream isResuming f = (if isResuming then Some (getExistingFileSize f) else Some 0)"

definition fileWrite :: "nat \<Rightarrow> FileState \<Rightarrow> FileState" where
  "fileWrite chunk f = Some (getExistingFileSize f + chunk)"

subsection \<open>One download attempt\<close>

text \<open>
  The options of \<open>streamDown\<close> that decide control flow (the callbacks only observe).
\<close>

record StreamDownOptions =
  url :: string
  expectedSize :: "int option"
  enableResume :: "bool option"
  maxRetries :: "nat option"
  initialBackoff :: "rat option"
  maxBackoff :: "rat option"
  backoffMultiplier :: "rat option"
  socketTimeout :: "nat option"
  connectTimeout :: "nat option"

text \<open>
  What the network does to one GET request. A response carries its status, the
  \<open>location\<close> header, the \<open>content-length\<close> header as \<open>Number.parseInt\<close> reads it,
  the lengths of the chunks of its body in order of arrival, and how the body stream
  finishes: with \<open>end\<close>, with \<open>close\<close> before \<open>end\<close>, with an \<open>error\<close> event, or
  with silence on an open socket (an idle timer fires). An \<open>error\<close> event of the
  request or of the response carries a Node error: its optional \<open>code\<close> and its
  message.
\<close>

datatype StreamFinish = Ended | ClosedEarly | ResponseError "string option" string | Stalled

record HttpResponse =
  statusCode :: "nat option"
  statusMessage :: string
  location :: "string option"
  contentLength :: "int option"
  chunks :: "nat list"
  finish :: StreamFinish

datatype Reply =
  ConnectTimedOut | RequestTimedOut | RequestError "string option" string | Responded HttpResponse

datatype Event = Get string "(string \<times> string) list" | Sleep int

text \<open>
  How the promise of \<open>attemptDownload\<close> is settled. \<open>Uncaught\<close>: an exception
  escapes the response callback, so the promise is neither resolved nor rejected.
\<close>

datatype AttemptResult = Resolved HttpResponse | Rejected DlErr | Uncaught

text \<open>The request headers: a \<open>Range\<close> header exactly when resuming.\<close>

definition requestHeaders :: "nat \<Rightarrow> (string \<times> string) list" where
  "requestHeaders existingSize =
     (let isResuming = existingSize > 0 in
      if isResuming then [(''Range'', ''bytes='' @ showNat existingSize @ ''-'')] else [])"

definition nodeError :: "string option \<Rightarrow> string \<Rightarrow> DlErr" where
  "nodeError c msg = \<lparr>code = c, message = msg, requiresRestart = False\<rparr>"

definition connectTimeoutError :: "StreamDownOptions \<Rightarrow> DlErr" where
  "connectTimeoutError opts =
     \<lparr>code = Some ''CONNECT_TIMEOUT'',
      message = ''Connection timeout after '' @
                showNat (case connectTimeout opts of None \<Rightarrow> 300000 | Some t \<Rightarrow> t) @ ''ms'',
      requiresRestart = False\<rparr>"

definition requestTimeoutError :: "StreamDownOptions \<Rightarrow> DlErr" where
  "requestTimeoutError opts =
     \<lparr>code = Some ''ETIMEDOUT'',
      message = ''Request timeout after '' @
                showNat (case connectTimeout opts of None \<Rightarrow> 300000 | Some t \<Rightarrow> t) @ ''ms'',
      requiresRestart = False\<rparr>"

definition socketTimeoutError :: "StreamDownOptions \<Rightarrow> DlErr" where
  "socketTimeoutError opts =
     \<lparr>code = Some ''SOCKET_TIMEOUT'',
      message = ''Socket timeout: no data received for '' @
                showNat (case socketTimeout opts of None \<Rightarrow> 300000 | Some t \<Rightarrow> t) @ ''ms'',
      requiresRestart = False\<rparr>"

text \<open>
  Two idle timers run while the body is awaited: the request's own timeout
  (\<open>requestOptions.timeout = connectTimeout\<close>, the socket's idle timeout, whose
  \<open>timeout\<close> event rejects with \<open>ETIMEDOUT\<close>) and the timer that \<open>resetSocketTimeout\<close>
  arms for \<open>socketTimeout\<close> milliseconds. Both restart with every chunk, the
  request's first; on a silent open socket the shorter one fires, the request's when
  they are equal (the default: both 300000).
\<close>

definition idleTimeoutError :: "StreamDownOptions \<Rightarrow> DlErr" where
  "idleTimeoutError opts =
     (if (case connectTimeout opts of None \<Rightarrow> 300000 | Some t \<Rightarrow> t)
           \<le> (case socketTimeout opts of None \<Rightarrow> 300000 | Some t \<Rightarrow> t)
      then requestTimeoutError opts else socketTimeoutError opts)"

definition http416Error :: DlErr where
  "http416Error =
     \<lparr>code = Some ''HTTP_416_RESTART'',
      message = ''HTTP 416: Range Not Satisfiable - partial file was corrupt, deleted and will restart'',
      requiresRestart = True\<rparr>"

definition httpStatusError :: "nat \<Rightarrow> string \<Rightarrow> DlErr" where
  "httpStatusError status statusMsg =
     \<lparr>code = Some (''HTTP_'' @ showNat status),
      message = ''HTTP '' @ showNat status @ '': '' @ statusMsg,
      requiresRestart = False\<rparr>"

definition dataOverflowError :: "nat \<Rightarrow> int \<Rightarrow> DlErr" where
  "dataOverflowError received expectedBytesThisSession =
     \<lparr>code = Some ''DATA_OVERFLOW'',
      message = ''Data overflow detected: received '' @ showNat received @
                '' bytes but expected ~'' @ showInt expectedBytesThisSession,
      requiresRestart = False\<rparr>"

definition sizeMismatchError :: "int \<Rightarrow> nat \<Rightarrow> DlErr" where
  "sizeMismatchError totalBytes finalSize =
     \<lparr>code = Some ''SIZE_MISMATCH'',
      message = ''File size mismatch: expected '' @ showInt totalBytes @
                '' bytes but got '' @ showNat finalSize,
      requiresRestart = False\<rparr>"

definition prematureCloseError :: "nat \<Rightarrow> int \<Rightarrow> DlErr" where
  "prematureCloseError downloaded totalBytes =
     \<lparr>code = Some ''ECONNRESET'',
      message = ''Connection closed prematurely: downloaded '' @ showNat downloaded @
                '' of '' @ showInt totalBytes @ '' bytes'',
      requiresRestart = False\<rparr>"

text \<open>
  \<open>Math.max(expectedBytesThisSession * 1.01, expectedBytesThisSession + 1024)\<close>, in
  exact rational arithmetic.
\<close>

definition overflowThreshold :: "int \<Rightarrow> rat" where
  "overflowThreshold expectedBytesThisSession =
     max (of_int expectedBytesThisSession * (101 / 100)) (of_int expectedBytesThisSession + 1024)"

text \<open>
  The \<open>data\<close> handler, run over the chunks in order. The result is the number of
  bytes that tripped the overflow check (if any), the bytes written in this session
  and the file as the handler leaves it. On overflow the handler writes nothing more
  and rejects at once; the file is deleted later, by the callback that it hands to
  \<open>file.close\<close>.
\<close>

fun writeChunks :: "int \<Rightarrow> int \<Rightarrow> nat \<Rightarrow> nat list \<Rightarrow> FileState \<Rightarrow> nat option \<times> nat \<times> FileState" where
  "writeChunks totalBytes expectedBytesThisSession bytesWrittenThisSession [] f =
     (None, bytesWrittenThisSession, f)"
| "writeChunks totalBytes expectedBytesThisSession bytesWrittenThisSession (chunk # rest) f =
     (if totalBytes > 0 \<and>
         of_nat (bytesWrittenThisSession + chunk) > overflowThreshold expectedBytesThisSession
      then (Some (bytesWrittenThisSession + chunk), bytesWrittenThisSession, f)
      else writeChunks totalBytes expectedBytesThisSession (bytesWrittenThisSession + chunk)
             rest (fileWrite chunk f))"

text \<open>The \<open>end\<close> handler after the file has been flushed; for a stream that ends,
  its verdict is the result of the attempt.\<close>

definition onEnd :: "HttpResponse \<Rightarrow> int \<Rightarrow> FileState \<Rightarrow> AttemptResult \<times> FileState" where
  "onEnd response totalBytes f =
     (if totalBytes > 0 then
        (let finalSize = getExistingFileSize f in
         if int finalSize \<noteq> totalBytes
         then (Rejected (sizeMismatchError totalBytes finalSize), snd (safeDeleteFile f))
         else (Resolved response, f))
      else (Resolved response, f))"

definition totalBytesOf :: "StreamDownOptions \<Rightarrow> nat \<Rightarrow> HttpResponse \<Rightarrow> int" where
  "totalBytesOf opts existingSize response =
     (let serverSupportsResume = (statusCode response = Some 206) in
      if serverSupportsResume \<and> contentLength response \<noteq> None
        then int existingSize + the (contentLength response)
      else if contentLength response \<noteq> None then the (contentLength response)
      else (case expectedSize opts of None \<Rightarrow> 0 | Some e \<Rightarrow> e))"

definition expectedBytesThisSessionOf :: "StreamDownOptions \<Rightarrow> nat \<Rightarrow> HttpResponse \<Rightarrow> int" where
  "expectedBytesThisSessionOf opts existingSize response =
     (let serverSupportsResume = (statusCode response = Some 206);
          totalBytes = totalBytesOf opts existingSize response
      in if serverSupportsResume then totalBytes - int existingSize else totalBytes)"

text \<open>
  The part of the response callback that receives the body (from the computation of
  \<open>totalBytes\<close> on). \<open>f\<close> is the destination file as the write stream has opened it.
  The result is the settled promise, the file at that moment, and whether a deletion
  of the file is still to come (scheduled in the callback of \<open>file.close\<close>), which
  \<open>afterClose\<close> carries out. After \<open>close\<close> without \<open>end\<close> and without a short
  count, nothing settles the promise until the \<open>socketTimeout\<close> timer fires (the
  socket is gone, and its idle timeout with it).
\<close>

definition afterClose :: "bool \<Rightarrow> FileState \<Rightarrow> FileState" where
  "afterClose unlinkOnClose f = (if unlinkOnClose then snd (safeDeleteFile f) else f)"

definition receiveBody ::
  "StreamDownOptions \<Rightarrow> nat \<Rightarrow> HttpResponse \<Rightarrow> FileState
     \<Rightarrow> AttemptResult \<times> FileState \<times> bool" where
  "receiveBody opts existingSize response f =
     (let serverSupportsResume = (statusCode response = Some 206);
          totalBytes = totalBytesOf opts existingSize response;
          bytesDownloaded0 = (if serverSupportsResume then existingSize else 0);
          expectedBytesThisSession = expectedBytesThisSessionOf opts existingSize response;
          (overflow, written, f1) =
            writeChunks totalBytes expectedBytesThisSession 0 (chunks response) f
      in case overflow of
           Some received \<Rightarrow>
             (Rejected (dataOverflowError received expectedBytesThisSession), f1, True)
         | None \<Rightarrow>
             (case finish response of
                Ended \<Rightarrow> (case onEnd response totalBytes f1 of (res, f2) \<Rightarrow> (res, f2, False))
              | ResponseError c msg \<Rightarrow> (Rejected (nodeError c msg), f1, False)
              | ClosedEarly \<Rightarrow>
                  (if int (bytesDownloaded0 + written) < totalBytes \<and> totalBytes > 0
                   then (Rejected (prematureCloseError (bytesDownloaded0 + written) totalBytes),
                         f1, False)
                   else (Rejected (socketTimeoutError opts), f1, False))
              | Stalled \<Rightarrow> (Rejected (idleTimeoutError opts), f1, False)))"

definition isRedirect :: "HttpResponse \<Rightarrow> bool" where
  "isRedirect response =
     (case statusCode response of
        None \<Rightarrow> False
      | Some st \<Rightarrow> st \<noteq> 0 \<and> st \<ge> 300 \<and> st < 400 \<and>
                  (case location response of None \<Rightarrow> False | Some l \<Rightarrow> l \<noteq> []))"

text \<open>The responses that pass every status check of the response callback, so that
  their body is written to the file.\<close>

definition bodyAccepted :: "nat \<Rightarrow> HttpResponse \<Rightarrow> bool" where
  "bodyAccepted existingSize response =
     (\<not> isRedirect response \<and>
      statusCode response \<noteq> Some 416 \<and>
      (case statusCode response of
         None \<Rightarrow> True
       | Some st \<Rightarrow> st = 0 \<or> (st \<notin> RETRYABLE_HTTP_STATUS_CODES \<and> st < 400)) \<and>
      \<not> (existingSize > 0 \<and> statusCode response = Some 200))"

text \<open>
  \<open>attemptDownload\<close>, entered with an \<open>opts.url\<close> that \<open>new URL\<close> accepts
  (\<open>streamDown\<close> has parsed it before the loop); \<open>validURL\<close> tells which strings
  \<open>new URL\<close> accepts. \<open>replies\<close> are the network's answers to the GET requests still
  to come, in order; a request with no scripted answer is never answered, so its
  connection timer fires. The result is the settled promise, the unused replies, the
  destination file at that moment, the requests issued, and whether a deletion of the
  file is still to come. A redirect calls \<open>attemptDownload\<close> again from inside the
  response callback, with the \<open>Location\<close> header as the URL: when \<open>new URL\<close> rejects
  it (a relative reference), the exception escapes the callback.
\<close>

fun attemptDownload ::
  "(string \<Rightarrow> bool) \<Rightarrow> StreamDownOptions \<Rightarrow> nat \<Rightarrow> nat \<Rightarrow> Reply list \<Rightarrow> FileState
     \<Rightarrow> AttemptResult \<times> Reply list \<times> FileState \<times> Event list \<times> bool" where
  "attemptDownload validURL opts existingSize retryAttempt [] f =
     (Rejected (connectTimeoutError opts), [],
      createWriteStream (existingSize > 0) f,
      [Get (url opts) (requestHeaders existingSize)], False)"
| "attemptDownload validURL opts existingSize retryAttempt (reply # rest) f =
     (let isResuming = existingSize > 0;
          file = createWriteStream isResuming f;
          req = Get (url opts) (requestHeaders existingSize)
      in case reply of
           ConnectTimedOut \<Rightarrow> (Rejected (connectTimeoutError opts), rest, file, [req], False)
         | RequestTimedOut \<Rightarrow> (Rejected (requestTimeoutError opts), rest, file, [req], False)
         | RequestError c msg \<Rightarrow> (Rejected (nodeError c msg), rest, file, [req], False)
         | Responded response \<Rightarrow>
             if isRedirect response then
               (if \<not> validURL (the (location response)) then
                  (Uncaught, rest, (if \<not> isResuming then None else file), [req], False)
                else
                  (case attemptDownload validURL (opts\<lparr>url := the (location response)\<rparr>)
                          existingSize retryAttempt rest (if \<not> isResuming then None else file) of
                     (res, rest', f', evs, unlinkOnClose) \<Rightarrow>
                       (res, rest', f', req # evs, unlinkOnClose)))
             else if statusCode response = Some 416 \<and> 416 \<in> CORRUPT_FILE_HTTP_STATUS_CODES then
               (Rejected http416Error, rest, snd (safeDeleteFile file), [req], False)
             else if (case statusCode response of None \<Rightarrow> False
                      | Some st \<Rightarrow> st \<noteq> 0 \<and> st \<in> RETRYABLE_HTTP_STATUS_CODES) then
               (Rejected (httpStatusError (the (statusCode response)) (statusMessage response)),
                rest, file, [req], False)
             else if (case statusCode response of None \<Rightarrow> False
                      | Some st \<Rightarrow> st \<noteq> 0 \<and> st \<ge> 400) then
               (Rejected (httpStatusError (the (statusCode response)) (statusMessage response)),
                rest, file, [req], False)
             else if isResuming \<and> statusCode response \<noteq> Some 206
                       \<and> statusCode response = Some 200 then
               (case attemptDownload validURL (opts\<lparr>enableResume := Some False\<rparr>) 0
                       retryAttempt rest None of
                  (res, rest', f', evs, unlinkOnClose) \<Rightarrow>
                    (res, rest', f', req # evs, unlinkOnClose))
             else
               (case receiveBody opts existingSize response file of
                  (res, f', unlinkOnClose) \<Rightarrow> (res, rest, f', [req], unlinkOnClose)))"

subsection \<open>The retry loop of \<open>streamDown\<close>\<close>

definition maxRestarts :: nat where
  "maxRestarts = 3"

definition maxRetriesOf :: "StreamDownOptions \<Rightarrow> nat" where
  "maxRetriesOf opts = (case maxRetries opts of None \<Rightarrow> 5 | Some m \<Rightarrow> m)"

definition resumeEnabled :: "StreamDownOptions \<Rightarrow> bool" where
  "resumeEnabled opts = (enableResume opts \<noteq> Some False)"

text \<open>The first statements of the loop body: the size to resume from, and the file
  after validation.\<close>

definition beforeAttempt :: "StreamDownOptions \<Rightarrow> FileState \<Rightarrow> nat \<times> FileState" where
  "beforeAttempt opts f =
     (if resumeEnabled opts then
        (let (validation, f') =
               validatePartialFile f (case expectedSize opts of None \<Rightarrow> 0 | Some e \<Rightarrow> e)
         in (resumeFromBytes validation, f'))
      else (0, f))"

definition retryDelay :: "StreamDownOptions \<Rightarrow> nat \<Rightarrow> rat \<Rightarrow> int" where
  "retryDelay opts attempt rnd =
     calculateBackoff attempt
       (case initialBackoff opts of None \<Rightarrow> 5000 | Some b \<Rightarrow> b)
       (case maxBackoff opts of None \<Rightarrow> 60000 | Some b \<Rightarrow> b)
       (case backoffMultiplier opts of None \<Rightarrow> 2 | Some b \<Rightarrow> b) rnd"

text \<open>
  How a call of \<open>streamDown\<close> ends: its promise is fulfilled with the response, or
  rejected with a \<open>DownloadError\<close>, or rejected with the \<open>TypeError\<close> of \<open>new URL\<close>, or
  never settled (the attempt it awaits never settles).
\<close>

datatype Settlement = Fulfilled HttpResponse | Failed DownloadError | InvalidURL | Unsettled

text \<open>
  The \<open>for (let attempt = 0; attempt <= maxRetries; attempt++)\<close> loop, entered with the
  current \<open>attempt\<close>, \<open>restartCount\<close> and \<open>lastError\<close>. \<open>rnd\<close> gives the value of
  \<open>Math.random()\<close> drawn for the backoff after each attempt. The result is how the
  call ends, the destination file afterwards and the requests and sleeps in order.
  The \<open>catch\<close> block runs as soon as the attempt is rejected, so
  \<open>getExistingFileSize\<close> reads the file as the attempt left it; a deletion still to
  come has happened by the time a sleep is over, and in the file that the call
  leaves behind.
\<close>

function streamDown_loop ::
  "(string \<Rightarrow> bool) \<Rightarrow> StreamDownOptions \<Rightarrow> (nat \<Rightarrow> rat) \<Rightarrow> nat \<Rightarrow> nat \<Rightarrow> DlErr option
     \<Rightarrow> Reply list \<Rightarrow> FileState \<Rightarrow> Settlement \<times> FileState \<times> Event list" where
  "streamDown_loop validURL opts rnd attempt restartCount lastError replies f =
     (if \<not> attempt \<le> maxRetriesOf opts then
        (Failed \<lparr>d_message = ''Download failed after '' @ showNat (maxRetriesOf opts + 1) @ '' attempts'',
                 d_code = map_option message lastError,
                 attempts = maxRetriesOf opts + 1,
                 isRetryable = False,
                 bytesDownloaded = getExistingFileSize f\<rparr>, f, [])
      else
        (case beforeAttempt opts f of (existingSize, f1) \<Rightarrow>
         (case attemptDownload validURL opts existingSize attempt replies f1 of
            (Resolved response, rest, f2, evs, unlinkOnClose) \<Rightarrow>
              (Fulfilled response, afterClose unlinkOnClose f2, evs)
          | (Uncaught, rest, f2, evs, unlinkOnClose) \<Rightarrow>
              (Unsettled, afterClose unlinkOnClose f2, evs)
          | (Rejected error, rest, f2, evs, unlinkOnClose) \<Rightarrow>
              if requiresRestart error then
                (if restartCount + 1 > maxRestarts then
                   (Failed \<lparr>d_message = ''Download failed: file corruption detected '' @
                                        showNat (restartCount + 1) @ '' times'',
                            d_code = Some ''CORRUPT_FILE_LOOP'',
                            attempts = attempt + 1,
                            isRetryable = False,
                            bytesDownloaded = 0\<rparr>, afterClose unlinkOnClose f2, evs)
                 else
                   (case streamDown_loop validURL opts rnd attempt (restartCount + 1) (Some error)
                           rest (afterClose unlinkOnClose f2) of
                      (res, f3, evs') \<Rightarrow> (res, f3, evs @ Sleep 1000 # evs')))
              else
                (let retryable = isRetryableError error in
                 if \<not> retryable \<or> attempt \<ge> maxRetriesOf opts then
                   (Failed \<lparr>d_message = ''Download failed after '' @ showNat (attempt + 1) @
                                        '' attempt(s): '' @ message error,
                            d_code = code error,
                            attempts = attempt + 1,
                            isRetryable = retryable,
                            bytesDownloaded = getExistingFileSize f2\<rparr>,
                    afterClose unlinkOnClose f2, evs)
                 else
                   (let delayMs = retryDelay opts attempt (rnd attempt) in
                    case streamDown_loop validURL opts rnd (attempt + 1) restartCount (Some error)
                           rest (afterClose unlinkOnClose f2) of
                      (res, f3, evs') \<Rightarrow> (res, f3, evs @ Sleep delayMs # evs'))))))"
  by pat_completeness auto
termination
  by (relation "measure (\<lambda>(validURL, opts, rnd, attempt, restartCount, lastError, replies, f).
                   (maxRetriesOf opts + 1 - attempt) + (maxRestarts + 1 - restartCount))")
     (auto simp: maxRestarts_def)

declare streamDown_loop.simps [simp del]

text \<open>\<open>streamDown\<close>: \<open>new URL(opts.url)\<close>, then the loop from \<open>attempt = 0\<close>,
  \<open>restartCount = 0\<close>, with no error seen yet.\<close>

definition streamDown ::
  "(string \<Rightarrow> bool) \<Rightarrow> StreamDownOptions \<Rightarrow> (nat \<Rightarrow> rat) \<Rightarrow> Reply list \<Rightarrow> FileState
     \<Rightarrow> Settlement \<times> FileState \<times> Event list" where
  "streamDown validURL opts rnd replies f =
     (if \<not> validURL (url opts) then (InvalidURL, f, [])
      else streamDown_loop validURL opts rnd 0 0 None replies f)"




section \<open>Authority-code lookups: \<open>propertyCodeToName\<close>\<close>

record AuthorityCodeEntry =
  CODE :: string
  NAME :: string

record PropertyCodeToNameContext =
  Authority_Code_LEVEL_TYPE_AUT_psv :: "AuthorityCodeEntry list"
  Authority_Code_FLAT_TYPE_AUT_psv :: "AuthorityCodeEntry list"
  Authority_Code_STREET_TYPE_AUT_psv :: "AuthorityCodeEntry list"
  Authority_Code_STREET_CLASS_AUT_psv :: "AuthorityCodeEntry list"
  Authority_Code_LOCALITY_CLASS_AUT_psv :: "AuthorityCodeEntry list"
  Authority_Code_STREET_SUFFIX_AUT_psv :: "AuthorityCodeEntry list"
  Authority_Code_GEOCODE_RELIABILITY_AUT_psv :: "AuthorityCodeEntry list"
  Authority_Code_GEOCODE_TYPE_AUT_psv :: "AuthorityCodeEntry list"
  Authority_Code_GEOCODED_LEVEL_TYPE_AUT_psv :: "AuthorityCodeEntry list"

text \<open>
  What a helper hands to the \<open>error\<close> logger: a message, the \<open>{ address }\<close> object, or
  (geocoded level type) a message that carries the JSON rendering of the table.
\<close>

datatype 'a Diagnostic =
    Message string
  | AddressObject 'a
  | MessageWithTable string "AuthorityCodeEntry list"

text \<open>The template string \<open>Unknown <label> Code: '<code>'\<close>.\<close>

definition unknownCode :: "string \<Rightarrow> string \<Rightarrow> string" where
  "unknownCode label c = ''Unknown '' @ label @ '' Code: '' @ [CHR 0x27] @ c @ [CHR 0x27]"

subsection \<open>The TypeScript source: \<open>Array.prototype.find\<close>\<close>

text \<open>
  \<open>apps/server/service/helpers/propertyCodeToName.ts\<close>. Each helper returns the name
  (\<open>None\<close> is \<open>undefined\<close>) and the diagnostics it logged.
\<close>

definition levelTypeCodeToName ::
  "string \<Rightarrow> PropertyCodeToNameContext \<Rightarrow> 'a \<Rightarrow> string option \<times> 'a Diagnostic list" where
  "levelTypeCodeToName code' context address =
     (case List.find (\<lambda>entry. CODE entry = code') (Authority_Code_LEVEL_TYPE_AUT_psv context) of
        Some found \<Rightarrow> (Some (NAME found), [])
      | None \<Rightarrow> (None, [Message (unknownCode ''Level Type'' code'), AddressObject address]))"

definition flatTypeCodeToName ::
  "string \<Rightarrow> PropertyCodeToNameContext \<Rightarrow> 'a \<Rightarrow> string option \<times> 'a Diagnostic list" where
  "flatTypeCodeToName code' context address =
     (case List.find (\<lambda>entry. CODE entry = code') (Authority_Code_FLAT_TYPE_AUT_psv context) of
        Some found \<Rightarrow> (Some (NAME found), [])
      | None \<Rightarrow> (None, [Message (unknownCode ''Flat Type'' code'), AddressObject address]))"

definition streetTypeCodeToName ::
  "string \<Rightarrow> PropertyCodeToNameContext \<Rightarrow> 'a \<Rightarrow> string option \<times> 'a Diagnostic list" where
  "streetTypeCodeToName code' context address =
     (case List.find (\<lambda>entry. CODE entry = code') (Authority_Code_STREET_TYPE_AUT_psv context) of
        Some found \<Rightarrow> (Some (NAME found), [])
      | None \<Rightarrow> (None, [Message (unknownCode ''Street Type'' code')]))"

definition streetClassCodeToName ::
  "string \<Rightarrow> PropertyCodeToNameContext \<Rightarrow> 'a \<Rightarrow> string option \<times> 'a Diagnostic list" where
  "streetClassCodeToName code' context address =
     (case List.find (\<lambda>entry. CODE entry = code') (Authority_Code_STREET_CLASS_AUT_psv context) of
        Some found \<Rightarrow> (Some (NAME found), [])
      | None \<Rightarrow> (None, [Message (unknownCode ''Street Class'' code')]))"

definition localityClassCodeToName ::
  "string \<Rightarrow> PropertyCodeToNameContext \<Rightarrow> string option \<times> 'a Diagnostic list" where
  "localityClassCodeToName code' context =
     (case List.find (\<lambda>entry. CODE entry = code') (Authority_Code_LOCALITY_CLASS_AUT_psv context) of
        Some found \<Rightarrow> (Some (NAME found), [])
      | None \<Rightarrow> (None, [Message (unknownCode ''Locality Class'' code')]))"

definition streetSuffixCodeToName ::
  "string \<Rightarrow> PropertyCodeToNameContext \<Rightarrow> string option \<times> 'a Diagnostic list" where
  "streetSuffixCodeToName code' context =
     (case List.find (\<lambda>entry. CODE entry = code') (Authority_Code_STREET_SUFFIX_AUT_psv context) of
        Some found \<Rightarrow> (Some (NAME found), [])
      | None \<Rightarrow> (None, [Message (unknownCode ''Street Suffix'' code')]))"

definition geocodeReliabilityCodeToName ::
  "string \<Rightarrow> PropertyCodeToNameContext \<Rightarrow> string option \<times> 'a Diagnostic list" where
  "geocodeReliabilityCodeToName code' context =
     (case List.find (\<lambda>entry. CODE entry = code') (Authority_Code_GEOCODE_RELIABILITY_AUT_psv context) of
        Some found \<Rightarrow> (Some (NAME found), [])
      | None \<Rightarrow> (None, [Message (unknownCode ''Geocode Reliability'' code')]))"

definition geocodeTypeCodeToName ::
  "string \<Rightarrow> PropertyCodeToNameContext \<Rightarrow> string option \<times> 'a Diagnostic list" where
  "geocodeTypeCodeToName code' context =
     (case List.find (\<lambda>entry. CODE entry = code') (Authority_Code_GEOCODE_TYPE_AUT_psv context) of
        Some found \<Rightarrow> (Some (NAME found), [])
      | None \<Rightarrow> (None, [Message (unknownCode ''Geocode Type'' code')]))"

definition levelGeocodedCodeToName ::
  "string \<Rightarrow> PropertyCodeToNameContext \<Rightarrow> string option \<times> 'a Diagnostic list" where
  "levelGeocodedCodeToName code' context =
     (case List.find (\<lambda>entry. CODE entry = code') (Authority_Code_GEOCODED_LEVEL_TYPE_AUT_psv context) of
        Some found \<Rightarrow> (Some (NAME found), [])
      | None \<Rightarrow> (None, [MessageWithTable (unknownCode ''Geocoded Level Type'' code' @ '' in:'')
                     (Authority_Code_GEOCODED_LEVEL_TYPE_AUT_psv context)]))"

subsection \<open>The compiled module: lazily memoised \<open>Map\<close>s\<close>

text \<open>
  \<open>apps/server/dist/service/helpers/propertyCodeToName.js\<close>. The nine module-level
  variables (\<open>None\<close> is \<open>undefined\<close>); a \<open>Map\<close> from code to name is a partial
  function.
\<close>

record AuthorityCodeMaps =
  levelTypeMap :: "(string \<rightharpoonup> string) option"
  flatTypeMap :: "(string \<rightharpoonup> string) option"
  streetTypeMap :: "(string \<rightharpoonup> string) option"
  streetClassMap :: "(string \<rightharpoonup> string) option"
  localityClassMap :: "(string \<rightharpoonup> string) option"
  streetSuffixMap :: "(string \<rightharpoonup> string) option"
  geocodeReliabilityMap :: "(string \<rightharpoonup> string) option"
  geocodeTypeMap :: "(string \<rightharpoonup> string) option"
  geocodedLevelTypeMap :: "(string \<rightharpoonup> string) option"

text \<open>\<open>buildCodeMap\<close>: \<open>map.set\<close> for every entry in order, a later entry replacing
  an earlier one with the same code.\<close>

definition buildCodeMap :: "AuthorityCodeEntry list \<Rightarrow> (string \<rightharpoonup> string)" where
  "buildCodeMap entries = fold (\<lambda>entry m. m(CODE entry \<mapsto> NAME entry)) entries Map.empty"

definition getLevelTypeMap ::
  "PropertyCodeToNameContext \<Rightarrow> AuthorityCodeMaps \<Rightarrow> (string \<rightharpoonup> string) \<times> AuthorityCodeMaps" where
  "getLevelTypeMap context st =
     (case levelTypeMap st of
        None \<Rightarrow> (let m = buildCodeMap (Authority_Code_LEVEL_TYPE_AUT_psv context)
                 in (m, st\<lparr>levelTypeMap := Some m\<rparr>))
      | Some m \<Rightarrow> (m, st))"

definition getFlatTypeMap ::
  "PropertyCodeToNameContext \<Rightarrow> AuthorityCodeMaps \<Rightarrow> (string \<rightharpoonup> string) \<times> AuthorityCodeMaps" where
  "getFlatTypeMap context st =
     (case flatTypeMap st of
        None \<Rightarrow> (let m = buildCodeMap (Authority_Code_FLAT_TYPE_AUT_psv context)
                 in (m, st\<lparr>flatTypeMap := Some m\<rparr>))
      | Some m \<Rightarrow> (m, st))"

definition getStreetTypeMap ::
  "PropertyCodeToNameContext \<Rightarrow> AuthorityCodeMaps \<Rightarrow> (string \<rightharpoonup> string) \<times> AuthorityCodeMaps" where
  "getStreetTypeMap context st =
     (case streetTypeMap st of
        None \<Rightarrow> (let m = buildCodeMap (Authority_Code_STREET_TYPE_AUT_psv context)
                 in (m, st\<lparr>streetTypeMap := Some m\<rparr>))
      | Some m \<Rightarrow> (m, st))"

definition getStreetClassMap ::
  "PropertyCodeToNameContext \<Rightarrow> AuthorityCodeMaps \<Rightarrow> (string \<rightharpoonup> string) \<times> AuthorityCodeMaps" where
  "getStreetClassMap context st =
     (case streetClassMap st of
        None \<Rightarrow> (let m = buildCodeMap (Authority_Code_STREET_CLASS_AUT_psv context)
                 in (m, st\<lparr>streetClassMap := Some m\<rparr>))
      | Some m \<Rightarrow> (m, st))"

definition getLocalityClassMap ::
  "PropertyCodeToNameContext \<Rightarrow> AuthorityCodeMaps \<Rightarrow> (string \<rightharpoonup> string) \<times> AuthorityCodeMaps" where
  "getLocalityClassMap context st =
     (case localityClassMap st of
        None \<Rightarrow> (let m = buildCodeMap (Authority_Code_LOCALITY_CLASS_AUT_psv context)
                 in (m, st\<lparr>localityClassMap := Some m\<rparr>))
      | Some m \<Rightarrow> (m, st))"

definition getStreetSuffixMap ::
  "PropertyCodeToNameContext \<Rightarrow> AuthorityCodeMaps \<Rightarrow> (string \<rightharpoonup> string) \<times> AuthorityCodeMaps" where
  "getStreetSuffixMap context st =
     (case streetSuffixMap st of
        None \<Rightarrow> (let m = buildCodeMap (Authority_Code_STREET_SUFFIX_AUT_psv context)
                 in (m, st\<lparr>streetSuffixMap := Some m\<rparr>))
      | Some m \<Rightarrow> (m, st))"

definition getGeocodeReliabilityMap ::
  "PropertyCodeToNameContext \<Rightarrow> AuthorityCodeMaps \<Rightarrow> (string \<rightharpoonup> string) \<times> AuthorityCodeMaps" where
  "getGeocodeReliabilityMap context st =
     (case geocodeReliabilityMap st of
        None \<Rightarrow> (let m = buildCodeMap (Authority_Code_GEOCODE_RELIABILITY_AUT_psv context)
                 in (m, st\<lparr>geocodeReliabilityMap := Some m\<rparr>))
      | Some m \<Rightarrow> (m, st))"

definition getGeocodeTypeMap ::
  "PropertyCodeToNameContext \<Rightarrow> AuthorityCodeMaps \<Rightarrow> (string \<rightharpoonup> string) \<times> AuthorityCodeMaps" where
  "getGeocodeTypeMap context st =
     (case geocodeTypeMap st of
        None \<Rightarrow> (let m = buildCodeMap (Authority_Code_GEOCODE_TYPE_AUT_psv context)
                 in (m, st\<lparr>geocodeTypeMap := Some m\<rparr>))
      | Some m \<Rightarrow> (m, st))"

definition getGeocodedLevelTypeMap ::
  "PropertyCodeToNameContext \<Rightarrow> AuthorityCodeMaps \<Rightarrow> (string \<rightharpoonup> string) \<times> AuthorityCodeMaps" where
  "getGeocodedLevelTypeMap context st =
     (case geocodedLevelTypeMap st of
        None \<Rightarrow> (let m = buildCodeMap (Authority_Code_GEOCODED_LEVEL_TYPE_AUT_psv context)
                 in (m, st\<lparr>geocodedLevelTypeMap := Some m\<rparr>))
      | Some m \<Rightarrow> (m, st))"

definition clearAuthorityCodeMaps :: "AuthorityCodeMaps \<Rightarrow> AuthorityCodeMaps" where
  "clearAuthorityCodeMaps st =
     st\<lparr>levelTypeMap := None, flatTypeMap := None, streetTypeMap := None,
        streetClassMap := None, localityClassMap := None, streetSuffixMap := None,
        geocodeReliabilityMap := None, geocodeTypeMap := None,
        geocodedLevelTypeMap := None\<rparr>"

text \<open>The helpers of the compiled module: the result, the diagnostics and the module
  state afterwards.\<close>

definition levelTypeCodeToName_dist ::
  "string \<Rightarrow> PropertyCodeToNameContext \<Rightarrow> 'a \<Rightarrow> AuthorityCodeMaps
     \<Rightarrow> (string option \<times> 'a Diagnostic list) \<times> AuthorityCodeMaps" where
  "levelTypeCodeToName_dist code' context address st =
     (case getLevelTypeMap context st of
        (m, st') \<Rightarrow>
          (case m code' of
             Some name \<Rightarrow> ((Some name, []), st')
           | None \<Rightarrow> ((None, [Message (unknownCode ''Level Type'' code'), AddressObject address]), st')))"

definition flatTypeCodeToName_dist ::
  "string \<Rightarrow> PropertyCodeToNameContext \<Rightarrow> 'a \<Rightarrow> AuthorityCodeMaps
     \<Rightarrow> (string option \<times> 'a Diagnostic list) \<times> AuthorityCodeMaps" where
  "flatTypeCodeToName_dist code' context address st =
     (case getFlatTypeMap context st of
        (m, st') \<Rightarrow>
          (case m code' of
             Some name \<Rightarrow> ((Some name, []), st')
           | None \<Rightarrow> ((None, [Message (unknownCode ''Flat Type'' code'), AddressObject address]), st')))"

definition streetTypeCodeToName_dist ::
  "string \<Rightarrow> PropertyCodeToNameContext \<Rightarrow> 'a \<Rightarrow> AuthorityCodeMaps
     \<Rightarrow> (string option \<times> 'a Diagnostic list) \<times> AuthorityCodeMaps" where
  "streetTypeCodeToName_dist code' context address st =
     (case getStreetTypeMap context st of
        (m, st') \<Rightarrow>
          (case m code' of
             Some name \<Rightarrow> ((Some name, []), st')
           | None \<Rightarrow> ((None, [Message (unknownCode ''Street Type'' code')]), st')))"

definition streetClassCodeToName_dist ::
  "string \<Rightarrow> PropertyCodeToNameContext \<Rightarrow> 'a \<Rightarrow> AuthorityCodeMaps
     \<Rightarrow> (string option \<times> 'a Diagnostic list) \<times> AuthorityCodeMaps" where
  "streetClassCodeToName_dist code' context address st =
     (case getStreetClassMap context st of
        (m, st') \<Rightarrow>
          (case m code' of
             Some name \<Rightarrow> ((Some name, []), st')
           | None \<Rightarrow> ((None, [Message (unknownCode ''Street Class'' code')]), st')))"

definition localityClassCodeToName_dist ::
  "string \<Rightarrow> PropertyCodeToNameContext \<Rightarrow> AuthorityCodeMaps
     \<Rightarrow> (string option \<times> 'a Diagnostic list) \<times> AuthorityCodeMaps" where
  "localityClassCodeToName_dist code' context st =
     (case getLocalityClassMap context st of
        (m, st') \<Rightarrow>
          (case m code' of
             Some name \<Rightarrow> ((Some name, []), st')
           | None \<Rightarrow> ((None, [Message (unknownCode ''Locality Class'' code')]), st')))"

definition streetSuffixCodeToName_dist ::
  "string \<Rightarrow> PropertyCodeToNameContext \<Rightarrow> AuthorityCodeMaps
     \<Rightarrow> (string option \<times> 'a Diagnostic list) \<times> AuthorityCodeMaps" where
  "streetSuffixCodeToName_dist code' context st =
     (case getStreetSuffixMap context st of
        (m, st') \<Rightarrow>
          (case m code' of
             Some name \<Rightarrow> ((Some name, []), st')
           | None \<Rightarrow> ((None, [Message (unknownCode ''Street Suffix'' code')]), st')))"

definition geocodeReliabilityCodeToName_dist ::
  "string \<Rightarrow> PropertyCodeToNameContext \<Rightarrow> AuthorityCodeMaps
     \<Rightarrow> (string option \<times> 'a Diagnostic list) \<times> AuthorityCodeMaps" where
  "geocodeReliabilityCodeToName_dist code' context st =
     (case getGeocodeReliabilityMap context st of
        (m, st') \<Rightarrow>
          (case m code' of
             Some name \<Rightarrow> ((Some name, []), st')
           | None \<Rightarrow> ((None, [Message (unknownCode ''Geocode Reliability'' code')]), st')))"

definition geocodeTypeCodeToName_dist ::
  "string \<Rightarrow> PropertyCodeToNameContext \<Rightarrow> AuthorityCodeMaps
     \<Rightarrow> (string option \<times> 'a Diagnostic list) \<times> AuthorityCodeMaps" where
  "geocodeTypeCodeToName_dist code' context st =
     (case getGeocodeTypeMap context st of
        (m, st') \<Rightarrow>
          (case m code' of
             Some name \<Rightarrow> ((Some name, []), st')
           | None \<Rightarrow> ((None, [Message (unknownCode ''Geocode Type'' code')]), st')))"

definition levelGeocodedCodeToName_dist ::
  "string \<Rightarrow> PropertyCodeToNameContext \<Rightarrow> AuthorityCodeMaps
     \<Rightarrow> (string option \<times> 'a Diagnostic list) \<times> AuthorityCodeMaps" where
  "levelGeocodedCodeToName_dist code' context st =
     (case getGeocodedLevelTypeMap context st of
        (m, st') \<Rightarrow>
          (case m code' of
             Some name \<Rightarrow> ((Some name, []), st')
           | None \<Rightarrow> ((None, [MessageWithTable (unknownCode ''Geocoded Level Type'' code' @ '' in:'')
                       (Authority_Code_GEOCODED_LEVEL_TYPE_AUT_psv context)]), st')))"

subsection \<open>What a lookup has to deliver\<close>

text \<open>
  The outcome the specification asks of a lookup of \<open>code'\<close> in \<open>table\<close>: the name of
  an entry with that code and no diagnostic when such an entry is present, and
  \<open>undefined\<close> with a diagnostic when none is.
\<close>

definition resolvesCode ::
  "AuthorityCodeEntry list \<Rightarrow> string \<Rightarrow> string option \<times> 'a Diagnostic list \<Rightarrow> bool" where
  "resolvesCode table code' r =
     (if list_ex (\<lambda>e. CODE e = code') table
      then list_ex (\<lambda>e. CODE e = code' \<and> fst r = Some (NAME e)) table \<and> snd r = []
      else fst r = None \<and> snd r \<noteq> [])"

text \<open>The name of the first and of the last entry of a table that carry a code.\<close>

definition firstNameOf :: "AuthorityCodeEntry list \<Rightarrow> string \<Rightarrow> string option" where
  "firstNameOf table code' = map_option NAME (List.find (\<lambda>e. CODE e = code') table)"

definition lastNameOf :: "AuthorityCodeEntry list \<Rightarrow> string \<Rightarrow> string option" where
  "lastNameOf table code' = map_option NAME (List.find (\<lambda>e. CODE e = code') (rev table))"

text \<open>A memoised map that is unset, or was built from the given table.\<close>

definition memoFor :: "AuthorityCodeEntry list \<Rightarrow> (string \<rightharpoonup> string) option \<Rightarrow> bool" where
  "memoFor table memo = (memo = None \<or> memo = Some (buildCodeMap table))"

text \<open>The module state in which every memoised map is unset or was built from the
  tables of the given context.\<close>

definition mapsFor :: "PropertyCodeToNameContext \<Rightarrow> AuthorityCodeMaps \<Rightarrow> bool" where
  "mapsFor context st =
     (memoFor (Authority_Code_LEVEL_TYPE_AUT_psv context) (levelTypeMap st) \<and>
      memoFor (Authority_Code_FLAT_TYPE_AUT_psv context) (flatTypeMap st) \<and>
      memoFor (Authority_Code_STREET_TYPE_AUT_psv context) (streetTypeMap st) \<and>
      memoFor (Authority_Code_STREET_CLASS_AUT_psv context) (streetClassMap st) \<and>
      memoFor (Authority_Code_LOCALITY_CLASS_AUT_psv context) (localityClassMap st) \<and>
      memoFor (Authority_Code_STREET_SUFFIX_AUT_psv context) (streetSuffixMap st) \<and>
      memoFor (Authority_Code_GEOCODE_RELIABILITY_AUT_psv context) (geocodeReliabilityMap st) \<and>
      memoFor (Authority_Code_GEOCODE_TYPE_AUT_psv context) (geocodeTypeMap st) \<and>
      memoFor (Authority_Code_GEOCODED_LEVEL_TYPE_AUT_psv context) (geocodedLevelTypeMap st))"

text \<open>A context with empty tables, and the module state before any lookup (every
  variable \<open>undefined\<close>).\<close>

definition emptyContext :: PropertyCodeToNameContext where
  "emptyContext =
     \<lparr>Authority_Code_LEVEL_TYPE_AUT_psv = [],
      Authority_Code_FLAT_TYPE_AUT_psv = [],
      Authority_Code_STREET_TYPE_AUT_psv = [],
      Authority_Code_STREET_CLASS_AUT_psv = [],
      Authority_Code_LOCALITY_CLASS_AUT_psv = [],
      Authority_Code_STREET_SUFFIX_AUT_psv = [],
      Authority_Code_GEOCODE_RELIABILITY_AUT_psv = [],
      Authority_Code_GEOCODE_TYPE_AUT_psv = [],
      Authority_Code_GEOCODED_LEVEL_TYPE_AUT_psv = []\<rparr>"

definition unsetMaps :: AuthorityCodeMaps where
  "unsetMaps =
     \<lparr>levelTypeMap = None,
      flatTypeMap = None,
      streetTypeMap = None,
      streetClassMap = None,
      localityClassMap = None,
      streetSuffixMap = None,
      geocodeReliabilityMap = None,
      geocodeTypeMap = None,
      geocodedLevelTypeMap = None\<rparr>"

text \<open>A context in which every table holds the same two entries.\<close>

definition sampleContext :: PropertyCodeToNameContext where
  "sampleContext =
     \<lparr>Authority_Code_LEVEL_TYPE_AUT_psv = [\<lparr>CODE = ''L'', NAME = ''LEVEL''\<rparr>, \<lparr>CODE = ''G'', NAME = ''GROUND''\<rparr>],
      Authority_Code_FLAT_TYPE_AUT_psv = [\<lparr>CODE = ''L'', NAME = ''LEVEL''\<rparr>, \<lparr>CODE = ''G'', NAME = ''GROUND''\<rparr>],
      Authority_Code_STREET_TYPE_AUT_psv = [\<lparr>CODE = ''L'', NAME = ''LEVEL''\<rparr>, \<lparr>CODE = ''G'', NAME = ''GROUND''\<rparr>],
      Authority_Code_STREET_CLASS_AUT_psv = [\<lparr>CODE = ''L'', NAME = ''LEVEL''\<rparr>, \<lparr>CODE = ''G'', NAME = ''GROUND''\<rparr>],
      Authority_Code_LOCALITY_CLASS_AUT_psv = [\<lparr>CODE = ''L'', NAME = ''LEVEL''\<rparr>, \<lparr>CODE = ''G'', NAME = ''GROUND''\<rparr>],
      Authority_Code_STREET_SUFFIX_AUT_psv = [\<lparr>CODE = ''L'', NAME = ''LEVEL''\<rparr>, \<lparr>CODE = ''G'', NAME = ''GROUND''\<rparr>],
      Authority_Code_GEOCODE_RELIABILITY_AUT_psv = [\<lparr>CODE = ''L'', NAME = ''LEVEL''\<rparr>, \<lparr>CODE = ''G'', NAME = ''GROUND''\<rparr>],
      Authority_Code_GEOCODE_TYPE_AUT_psv = [\<lparr>CODE = ''L'', NAME = ''LEVEL''\<rparr>, \<lparr>CODE = ''G'', NAME = ''GROUND''\<rparr>],
      Authority_Code_GEOCODED_LEVEL_TYPE_AUT_psv = [\<lparr>CODE = ''L'', NAME = ''LEVEL''\<rparr>, \<lparr>CODE = ''G'', NAME = ''GROUND''\<rparr>]\<rparr>"

text \<open>A context in which every table repeats its codes: \<open>A\<close> with two names,
  \<open>B\<close> with one.\<close>

definition repeatingContext :: PropertyCodeToNameContext where
  "repeatingContext =
     \<lparr>Authority_Code_LEVEL_TYPE_AUT_psv = [\<lparr>CODE = ''A'', NAME = ''FIRST''\<rparr>, \<lparr>CODE = ''A'', NAME = ''LAST''\<rparr>,
          \<lparr>CODE = ''B'', NAME = ''BASEMENT''\<rparr>, \<lparr>CODE = ''B'', NAME = ''BASEMENT''\<rparr>],
      Authority_Code_FLAT_TYPE_AUT_psv = [\<lparr>CODE = ''A'', NAME = ''FIRST''\<rparr>, \<lparr>CODE = ''A'', NAME = ''LAST''\<rparr>,
          \<lparr>CODE = ''B'', NAME = ''BASEMENT''\<rparr>, \<lparr>CODE = ''B'', NAME = ''BASEMENT''\<rparr>],
      Authority_Code_STREET_TYPE_AUT_psv = [\<lparr>CODE = ''A'', NAME = ''FIRST''\<rparr>, \<lparr>CODE = ''A'', NAME = ''LAST''\<rparr>,
          \<lparr>CODE = ''B'', NAME = ''BASEMENT''\<rparr>, \<lparr>CODE = ''B'', NAME = ''BASEMENT''\<rparr>],
      Authority_Code_STREET_CLASS_AUT_psv = [\<lparr>CODE = ''A'', NAME = ''FIRST''\<rparr>, \<lparr>CODE = ''A'', NAME = ''LAST''\<rparr>,
          \<lparr>CODE = ''B'', NAME = ''BASEMENT''\<rparr>, \<lparr>CODE = ''B'', NAME = ''BASEMENT''\<rparr>],
      Authority_Code_LOCALITY_CLASS_AUT_psv = [\<lparr>CODE = ''A'', NAME = ''FIRST''\<rparr>, \<lparr>CODE = ''A'', NAME = ''LAST''\<rparr>,
          \<lparr>CODE = ''B'', NAME = ''BASEMENT''\<rparr>, \<lparr>CODE = ''B'', NAME = ''BASEMENT''\<rparr>],
      Authority_Code_STREET_SUFFIX_AUT_psv = [\<lparr>CODE = ''A'', NAME = ''FIRST''\<rparr>, \<lparr>CODE = ''A'', NAME = ''LAST''\<rparr>,
          \<lparr>CODE = ''B'', NAME = ''BASEMENT''\<rparr>, \<lparr>CODE = ''B'', NAME = ''BASEMENT''\<rparr>],
      Authority_Code_GEOCODE_RELIABILITY_AUT_psv = [\<lparr>CODE = ''A'', NAME = ''FIRST''\<rparr>, \<lparr>CODE = ''A'', NAME = ''LAST''\<rparr>,
          \<lparr>CODE = ''B'', NAME = ''BASEMENT''\<rparr>, \<lparr>CODE = ''B'', NAME = ''BASEMENT''\<rparr>],
      Authority_Code_GEOCODE_TYPE_AUT_psv = [\<lparr>CODE = ''A'', NAME = ''FIRST''\<rparr>, \<lparr>CODE = ''A'', NAME = ''LAST''\<rparr>,
          \<lparr>CODE = ''B'', NAME = ''BASEMENT''\<rparr>, \<lparr>CODE = ''B'', NAME = ''BASEMENT''\<rparr>],
      Authority_Code_GEOCODED_LEVEL_TYPE_AUT_psv = [\<lparr>CODE = ''A'', NAME = ''FIRST''\<rparr>, \<lparr>CODE = ''A'', NAME = ''LAST''\<rparr>,
          \<lparr>CODE = ''B'', NAME = ''BASEMENT''\<rparr>, \<lparr>CODE = ''B'', NAME = ''BASEMENT''\<rparr>]\<rparr>"

section \<open>Multi-line rendering: \<open>mapToMla\<close> and \<open>mapToShortMla\<close>\<close>

text \<open>
  Modelled from the spec: \<open>mapProperty.ts\<close> (\<open>mapToMla\<close>, \<open>mapToShortMla\<close>) is not among
  the sources, only its declaration file. From the specification: the lines of the
  multi-line address are the four logical groupings in order (building name,
  level+flat, number+street, locality+state+postcode); empty lines are omitted;
  emitting a fifth line is fatal. Locality, state and postcode are mandatory
  attributes of a structured address and are rendered \<open>LOCALITY STATE POSTCODE\<close>.
  The record holds the rendered text of the first three groupings (empty when the
  address has nothing to show there) and the three attributes of the last one.
\<close>

record MlaGroupings =
  buildingNameLine :: string
  levelFlatLine :: string
  numberStreetLine :: string
  locality :: string
  state :: string
  postcode :: string

datatype MapError = FlaTooLong "string list"

text \<open>Modelled from the spec: the lines in order, empty lines omitted.\<close>

definition composeMla :: "MlaGroupings \<Rightarrow> string list" where
  "composeMla s =
     filter (\<lambda>line. line \<noteq> [])
       [buildingNameLine s, levelFlatLine s, numberStreetLine s,
        locality s @ '' '' @ state s @ '' '' @ postcode s]"

text \<open>Modelled from the spec: the guard on the composed lines (a fifth line is a
  fatal mapping error).\<close>

definition mlaGuard :: "string list \<Rightarrow> MapError + string list" where
  "mlaGuard fla = (if length fla > 4 then Inl (FlaTooLong fla) else Inr fla)"

text \<open>Modelled from the spec: \<open>mapToMla\<close>, on the groupings in long form.\<close>

definition mapToMla :: "MlaGroupings \<Rightarrow> MapError + string list" where
  "mapToMla s = mlaGuard (composeMla s)"

text \<open>Modelled from the spec: \<open>mapToShortMla\<close>, on the groupings in short form, with the
  same budget.\<close>

definition mapToShortMla :: "MlaGroupings \<Rightarrow> MapError + string list" where
  "mapToShortMla s = mlaGuard (composeMla s)"

section \<open>Properties\<close>

subsection \<open>Covered regions\<close>

lemma split_str_nonempty: "split_str sep s \<noteq> []"
  by (induction s) (auto split: list.splits)

lemma getCoveredStates_valid:
  assumes "v \<noteq> []" and "\<forall>e \<in> set (split_str CHR '','' v). isSupportedState e"
  shows "getCoveredStates (Some v) = split_str CHR '','' v"
  using assms by (simp add: getCoveredStates_def Let_def list_ex_iff)

lemma getCoveredStates_invalid:
  assumes "\<exists>e \<in> set (split_str CHR '','' v). \<not> isSupportedState e"
  shows "getCoveredStates (Some v) = []"
  using assms by (simp add: getCoveredStates_def Let_def list_ex_iff)

lemma getCoveredStates_unset: "getCoveredStates None = [] \<and> getCoveredStates (Some []) = []"
  by (simp add: getCoveredStates_def)

lemma getCoveredStates_example:
  "getCoveredStates (Some ''NSW,VIC'') = [''NSW'', ''VIC''] \<and>
   getCoveredStates (Some ''NSW,XX'') = []"
  by (simp add: getCoveredStates_def isSupportedState_def)

text \<open>
  C1. The region filter accepts a list of entries only when every entry is one of the
  eight codes of \<open>isSupportedState\<close>. The code \<open>OT\<close> (Other Territories), which the
  specification and the README list as valid, is rejected: for
  \<open>COVERED_STATES=OT\<close> the result is the empty list (read downstream as full
  coverage) although the single entry lies in the closed region set.
\<close>

theorem getCoveredStates_OT_rejected:
  "set (split_str CHR '','' ''OT'') \<subseteq> specRegions \<and>
   split_str CHR '','' ''OT'' = [''OT''] \<and>
   getCoveredStates (Some ''OT'') = []"
  by (simp add: getCoveredStates_def specRegions_def isSupportedState_def)

subsection \<open>Search pagination\<close>

text \<open>The compiled service clamps both parameters before computing the offset.\<close>

lemma searchForAddress_clamps:
  "searchForAddress MAX_PAGE_NUMBER MAX_PAGE_SIZE p pageSize =
     (let s = (case pageSize of None \<Rightarrow> 8 | Some s \<Rightarrow> s);
          p' = max 1 (min p MAX_PAGE_NUMBER);
          s' = max 1 (min s MAX_PAGE_SIZE)
      in \<lparr>q_from = (p' - 1) * s', q_size = s'\<rparr>)"
  by (simp add: searchForAddress_def validatePaginationParams_def PAGE_SIZE_def Let_def
        split: option.splits)

lemma validatePaginationParams_range:
  assumes "1 \<le> MAX_PAGE_NUMBER" and "1 \<le> MAX_PAGE_SIZE"
  shows "1 \<le> fst (validatePaginationParams MAX_PAGE_NUMBER MAX_PAGE_SIZE p s) \<and>
         fst (validatePaginationParams MAX_PAGE_NUMBER MAX_PAGE_SIZE p s) \<le> MAX_PAGE_NUMBER \<and>
         1 \<le> snd (validatePaginationParams MAX_PAGE_NUMBER MAX_PAGE_SIZE p s) \<and>
         snd (validatePaginationParams MAX_PAGE_NUMBER MAX_PAGE_SIZE p s) \<le> MAX_PAGE_SIZE"
  using assms by (auto simp: validatePaginationParams_def Let_def)

text \<open>The unused copy in \<open>DefaultService.ts\<close> passes both parameters on as they
  come.\<close>

lemma searchForAddress_DefaultService_passes_through:
  "searchForAddress_DefaultService p (Some s) = \<lparr>q_from = (p - 1) * s, q_size = s\<rparr>"
  by (simp add: searchForAddress_DefaultService_def)

text \<open>
  C2. For every page number \<open>p\<close> and page size \<open>s\<close> passed to \<open>searchForAddress\<close>
  (with \<open>MAX_PAGE_NUMBER\<close> and \<open>MAX_PAGE_SIZE\<close> at least 1), the query uses offset
  \<open>(p' - 1) * s'\<close> and size \<open>s'\<close>, where \<open>p'\<close> is \<open>p\<close> clamped to
  \<open>[1, MAX_PAGE_NUMBER]\<close> (1 below the interval, \<open>MAX_PAGE_NUMBER\<close> above it, \<open>p\<close>
  inside) and \<open>s'\<close> is \<open>s\<close> clamped to \<open>[1, MAX_PAGE_SIZE]\<close>; a call without a page
  size takes \<open>s = 8\<close>.
\<close>

theorem searchForAddress_pagination:
  assumes "1 \<le> MAX_PAGE_NUMBER" and "1 \<le> MAX_PAGE_SIZE"
  shows "searchForAddress MAX_PAGE_NUMBER MAX_PAGE_SIZE p pageSize =
     (let s = (case pageSize of None \<Rightarrow> 8 | Some s \<Rightarrow> s);
          p' = (if p < 1 then 1 else if MAX_PAGE_NUMBER < p then MAX_PAGE_NUMBER else p);
          s' = (if s < 1 then 1 else if MAX_PAGE_SIZE < s then MAX_PAGE_SIZE else s)
      in \<lparr>q_from = (p' - 1) * s', q_size = s'\<rparr>)"
  using assms
  by (simp add: searchForAddress_def validatePaginationParams_def PAGE_SIZE_def Let_def
        split: option.splits)

theorem searchForAddress_pagination_witness:
  "searchForAddress 1000 100 0 None = \<lparr>q_from = 0, q_size = 8\<rparr>
   \<and> searchForAddress 1000 100 3 (Some 20) = \<lparr>q_from = 40, q_size = 20\<rparr>
   \<and> searchForAddress 1000 100 5000 (Some 500) = \<lparr>q_from = 99900, q_size = 100\<rparr>
   \<and> searchForAddress 1000 100 (- 2) (Some 0) = \<lparr>q_from = 0, q_size = 1\<rparr>"
proof -
  have a: "(1 :: int) \<le> 1000" and b: "(1 :: int) \<le> 100"
    by simp_all
  show ?thesis
    using searchForAddress_pagination [OF a b, of 0 None]
      searchForAddress_pagination [OF a b, of 3 "Some 20"]
      searchForAddress_pagination [OF a b, of 5000 "Some 500"]
      searchForAddress_pagination [OF a b, of "- 2" "Some 0"]
    by (simp add: Let_def)
qed

subsection \<open>Bulk index sink\<close>

lemma failedRounds_Suc:
  "failedRounds body r c (Suc n) =
     Bulk body r # Backoff (backoffDelay (Suc c)) # failedRounds body r (Suc c) n"
  by (simp add: failedRounds_def upt_conv_Cons map_Suc_upt [symmetric] o_def del: upt_Suc)

lemma backoffDelay_next: "min 600000 (backoffDelay k + 30000) = backoffDelay (Suc k)"
  by (auto simp: backoffDelay_def)

lemma backoffDelay_capped: "20 \<le> k \<Longrightarrow> backoffDelay k = 600000"
  by (simp add: backoffDelay_def)

lemma sendIndexRequest_loop_step:
  assumes "bulkFailed (backend c)"
  shows "sendIndexRequest_loop defaultIndexEnv backend body r (Suc n) B c =
         (case sendIndexRequest_loop defaultIndexEnv backend body r n
                 (min 600000 (B + 30000)) (Suc c) of
            (events, returned) \<Rightarrow> (Bulk body r # Backoff B # events, returned))"
  using assms by (simp add: envOr_def defaultIndexEnv_def)

lemma sendIndexRequest_loop_failing:
  assumes "\<forall>k<n. bulkFailed (backend (c + k))"
  shows "sendIndexRequest_loop defaultIndexEnv backend body r n (backoffDelay (Suc c)) c =
         (failedRounds body r c n, False)"
  using assms
proof (induction n arbitrary: c)
  case 0
  then show ?case by (simp add: failedRounds_def)
next
  case (Suc n)
  have f0: "bulkFailed (backend c)"
    using Suc.prems by (metis add.right_neutral zero_less_Suc)
  have rest: "\<forall>k<n. bulkFailed (backend (Suc c + k))"
    using Suc.prems by auto
  show ?case
    by (simp only: sendIndexRequest_loop_step [where backend = backend and c = c, OF f0]
          backoffDelay_next Suc.IH [OF rest] failedRounds_Suc prod.case)
qed

lemma sendIndexRequest_loop_returns:
  assumes "\<forall>k<n. bulkFailed (backend (c + k))" and "\<not> bulkFailed (backend (c + n))"
  shows "sendIndexRequest_loop defaultIndexEnv backend body r (Suc (n + extra))
           (backoffDelay (Suc c)) c =
         (failedRounds body r c n @ [Bulk body r], True)"
  using assms
proof (induction n arbitrary: c)
  case 0
  then show ?case by (simp add: failedRounds_def)
next
  case (Suc n)
  have f0: "bulkFailed (backend c)"
    using Suc.prems by (metis add.right_neutral zero_less_Suc)
  have rest: "\<forall>k<n. bulkFailed (backend (Suc c + k))"
    using Suc.prems by auto
  have ok: "\<not> bulkFailed (backend (Suc c + n))"
    using Suc.prems by simp
  show ?case
    by (simp only: add_Suc sendIndexRequest_loop_step [where backend = backend and c = c, OF f0]
          backoffDelay_next Suc.IH [OF rest ok] failedRounds_Suc prod.case append_Cons)
qed

lemma sendIndexRequest_rounds:
  assumes "\<forall>k<n. bulkFailed (backend k)"
  shows "sendIndexRequest defaultIndexEnv backend body n = (failedRounds body False 0 n, False)
         \<and> (\<not> bulkFailed (backend n) \<longrightarrow>
              sendIndexRequest defaultIndexEnv backend body (Suc (n + extra)) =
                (failedRounds body False 0 n @ [Bulk body False], True))"
proof -
  have i: "envOr (ADDRESSR_INDEX_BACKOFF defaultIndexEnv) 30000 = backoffDelay (Suc 0)"
    by (simp add: envOr_def defaultIndexEnv_def backoffDelay_def)
  have a: "\<forall>k<n. bulkFailed (backend (0 + k))"
    using assms by simp
  show ?thesis
    unfolding sendIndexRequest_def i
    using sendIndexRequest_loop_failing [OF a, of body False]
          sendIndexRequest_loop_returns [OF a, of body False extra]
    by simp
qed

text \<open>
  C3. Under the default configuration, as long as the backend fails (it throws, or
  its response carries \<open>errors\<close> or \<open>body.errors\<close>), \<open>sendIndexRequest\<close> has not
  returned: after \<open>n\<close> failures it has submitted the same batch \<open>n\<close> times and waited
  \<open>min (30000 * k) 600000\<close> milliseconds after failure \<open>k\<close> (\<open>k = 1 .. n\<close>). It returns
  only with the first successful submission, which is again the same batch.
\<close>

theorem sendIndexRequest_retries_whole_batch:
  assumes "\<forall>k<n. bulkFailed (backend k)"
  shows "sendIndexRequest defaultIndexEnv backend body n =
           (concat (map (\<lambda>k. [Bulk body False, Backoff (min (30000 * int (Suc k)) 600000)])
                      [0..<n]),
            False)
         \<and> (\<not> bulkFailed (backend n) \<longrightarrow>
              sendIndexRequest defaultIndexEnv backend body (Suc (n + extra)) =
                (concat (map (\<lambda>k. [Bulk body False, Backoff (min (30000 * int (Suc k)) 600000)])
                           [0..<n])
                   @ [Bulk body False], True))"
  using sendIndexRequest_rounds [OF assms, of body extra]
  by (simp add: failedRounds_def backoffDelay_def)

theorem sendIndexRequest_retries_whole_batch_witness:
  "bulkFailed BulkThrew
   \<and> bulkFailed (BulkAnswered \<lparr>errors = False, body_errors = True\<rparr>)
   \<and> \<not> bulkFailed (BulkAnswered \<lparr>errors = False, body_errors = False\<rparr>)
   \<and> sendIndexRequest defaultIndexEnv
        (\<lambda>k. if k = 0 then BulkThrew
              else if k = 1 then BulkAnswered \<lparr>errors = False, body_errors = True\<rparr>
              else BulkAnswered \<lparr>errors = False, body_errors = False\<rparr>) ''batch'' 3
      = ([Bulk ''batch'' False, Backoff 30000, Bulk ''batch'' False, Backoff 60000,
          Bulk ''batch'' False], True)"
proof -
  let ?B = "\<lambda>k::nat. if k = 0 then BulkThrew
              else if k = 1 then BulkAnswered \<lparr>errors = False, body_errors = True\<rparr>
              else BulkAnswered \<lparr>errors = False, body_errors = False\<rparr>"
  have h: "\<forall>k<2. bulkFailed (?B k)"
    by (simp add: bulkFailed_def)
  have u: "[0..<2] = [0, Suc 0]"
    by (simp add: upt_rec)
  show ?thesis
    using h sendIndexRequest_retries_whole_batch [OF h, of "''batch''" 0]
    by (simp add: bulkFailed_def u)
qed

subsection \<open>Package metadata cache\<close>

lemma cacheAge_cachedAt: "cachedAt c = Some t \<Longrightarrow> cacheAge parseDate now c = Some (now - t)"
  by (simp add: cacheAge_def cacheCreated_def)

lemma cacheAge_x_cache [simp]:
  "cacheAge parseDate now (c\<lparr>c_headers := (c_headers c)(''x-cache'' \<mapsto> v)\<rparr>) =
     cacheAge parseDate now c"
  by (simp add: cacheAge_def cacheCreated_def split: option.splits)







subsection \<open>Resumable fetcher: the resume protocol\<close>

lemma attemptDownload_first_request:
  "\<exists>evs. fst (snd (snd (snd (attemptDownload validURL opts es ra replies f)))) =
           Get (url opts) (requestHeaders es) # evs"
proof (cases replies)
  case Nil
  then show ?thesis by simp
next
  case (Cons reply rest)
  then show ?thesis
    by (cases reply) (auto simp: Let_def split: prod.splits)
qed

lemma streamDown_loop_first_request:
  assumes "attempt \<le> maxRetriesOf opts"
  shows "\<exists>evs. snd (snd (streamDown_loop validURL opts rnd attempt rc le replies f)) =
           Get (url opts) (requestHeaders (fst (beforeAttempt opts f))) # evs"
proof -
  obtain es f1 where b: "beforeAttempt opts f = (es, f1)" by (cases "beforeAttempt opts f")
  obtain res rest f2 evs u where
    a: "attemptDownload validURL opts es attempt replies f1 = (res, rest, f2, evs, u)"
    by (cases "attemptDownload validURL opts es attempt replies f1")
  from attemptDownload_first_request [of validURL opts es attempt replies f1] a
  obtain evs0 where e: "evs = Get (url opts) (requestHeaders es) # evs0" by auto
  show ?thesis
    using assms b a e
    by (subst streamDown_loop.simps)
       (auto simp: Let_def split: AttemptResult.splits prod.splits)
qed

lemma beforeAttempt_cases:
  assumes "resumeEnabled opts"
  shows "getExistingFileSize f = 0 \<Longrightarrow> beforeAttempt opts f = (0, f)"
    and "f = Some n \<Longrightarrow> 0 < n \<Longrightarrow> expectedSize opts = Some e \<Longrightarrow> 0 < e \<Longrightarrow> int n < e
           \<Longrightarrow> beforeAttempt opts f = (n, f)"
    and "f = Some n \<Longrightarrow> 0 < n \<Longrightarrow> expectedSize opts = Some e \<Longrightarrow> 0 < e \<Longrightarrow> e \<le> int n
           \<Longrightarrow> beforeAttempt opts f = (0, None)"
    and "f = Some n \<Longrightarrow> 0 < n \<Longrightarrow> expectedSize opts = None \<or> (\<exists>e. expectedSize opts = Some e \<and> e \<le> 0)
           \<Longrightarrow> beforeAttempt opts f = (n, f)"
  using assms
  by (auto simp: beforeAttempt_def validatePartialFile_def getExistingFileSize_def
        safeDeleteFile_def Let_def split: option.splits)

text \<open>
  C4. With resume enabled, every iteration of the retry loop inspects the size of the
  destination file before it issues its request: (1) absent or empty: fresh start,
  no \<open>Range\<close> header; (2) a size below the known expected size: the request carries
  \<open>Range: bytes=<size>-\<close>; (3) a size at or above the known expected size: the file
  is deleted and the request carries no \<open>Range\<close> header; (4) expected size unknown
  (absent, or not positive): resume from the existing size.
\<close>

theorem resume_protocol:
  assumes "resumeEnabled opts" and "attempt \<le> maxRetriesOf opts"
  shows "(getExistingFileSize f = 0 \<longrightarrow>
            beforeAttempt opts f = (0, f) \<and>
            hd (snd (snd (streamDown_loop validURL opts rnd attempt rc le replies f))) = Get (url opts) [])
       \<and> (f = Some n \<and> 0 < n \<and> expectedSize opts = Some e \<and> 0 < e \<and> int n < e \<longrightarrow>
            beforeAttempt opts f = (n, f) \<and>
            hd (snd (snd (streamDown_loop validURL opts rnd attempt rc le replies f))) =
              Get (url opts) [(''Range'', ''bytes='' @ showNat n @ ''-'')])
       \<and> (f = Some n \<and> 0 < n \<and> expectedSize opts = Some e \<and> 0 < e \<and> e \<le> int n \<longrightarrow>
            beforeAttempt opts f = (0, None) \<and>
            hd (snd (snd (streamDown_loop validURL opts rnd attempt rc le replies f))) = Get (url opts) [])
       \<and> (f = Some n \<and> 0 < n \<and>
            (expectedSize opts = None \<or> (\<exists>e. expectedSize opts = Some e \<and> e \<le> 0)) \<longrightarrow>
            beforeAttempt opts f = (n, f) \<and>
            hd (snd (snd (streamDown_loop validURL opts rnd attempt rc le replies f))) =
              Get (url opts) [(''Range'', ''bytes='' @ showNat n @ ''-'')])"
proof -
  obtain evs where h: "snd (snd (streamDown_loop validURL opts rnd attempt rc le replies f)) =
      Get (url opts) (requestHeaders (fst (beforeAttempt opts f))) # evs"
    using streamDown_loop_first_request [OF assms(2)] by blast
  have r0: "requestHeaders 0 = []" by (simp add: requestHeaders_def)
  have rn: "0 < n \<Longrightarrow> requestHeaders n = [(''Range'', ''bytes='' @ showNat n @ ''-'')]"
    by (simp add: requestHeaders_def)
  show ?thesis
    using beforeAttempt_cases [OF assms(1)] h r0 rn by auto
qed

theorem resume_protocol_witness:
  "beforeAttempt \<lparr>url = ''https://data.example/gnaf.zip'', expectedSize = Some 100,
        enableResume = None, maxRetries = None, initialBackoff = None, maxBackoff = None,
        backoffMultiplier = None, socketTimeout = None, connectTimeout = None\<rparr> None = (0, None)
   \<and> hd (snd (snd (streamDown_loop (\<lambda>u. True) \<lparr>url = ''https://data.example/gnaf.zip'', expectedSize = Some 100,
        enableResume = None, maxRetries = None, initialBackoff = None, maxBackoff = None,
        backoffMultiplier = None, socketTimeout = None, connectTimeout = None\<rparr>
        (\<lambda>k. 0) 0 0 None [] (Some 40))))
      = Get ''https://data.example/gnaf.zip'' [(''Range'', ''bytes=40-'')]
   \<and> beforeAttempt \<lparr>url = ''https://data.example/gnaf.zip'', expectedSize = Some 100,
        enableResume = None, maxRetries = None, initialBackoff = None, maxBackoff = None,
        backoffMultiplier = None, socketTimeout = None, connectTimeout = None\<rparr> (Some 100) = (0, None)
   \<and> hd (snd (snd (streamDown_loop (\<lambda>u. True) \<lparr>url = ''https://data.example/gnaf.zip'', expectedSize = None,
        enableResume = None, maxRetries = None, initialBackoff = None, maxBackoff = None,
        backoffMultiplier = None, socketTimeout = None, connectTimeout = None\<rparr>
        (\<lambda>k. 0) 0 0 None [] (Some 40))))
      = Get ''https://data.example/gnaf.zip'' [(''Range'', ''bytes=40-'')]"
proof -
  let ?O = "\<lambda>e. \<lparr>url = ''https://data.example/gnaf.zip'', expectedSize = e,
        enableResume = None, maxRetries = None, initialBackoff = None, maxBackoff = None,
        backoffMultiplier = None, socketTimeout = None, connectTimeout = None\<rparr>"
  have r: "\<And>e. resumeEnabled (?O e)"
    by (simp add: resumeEnabled_def)
  have m: "\<And>e. 0 \<le> maxRetriesOf (?O e)"
    by simp
  have s: "showNat 40 = ''40''"
    by code_simp
  have i1: "beforeAttempt (?O (Some 100)) None = (0, None)"
    using resume_protocol [OF r m, where f = None and e = 100 and n = 0]
    by (simp add: getExistingFileSize_def)
  have i2: "hd (snd (snd (streamDown_loop (\<lambda>u. True) (?O (Some 100)) (\<lambda>k. 0) 0 0 None [] (Some 40))))
              = Get ''https://data.example/gnaf.zip'' [(''Range'', ''bytes=40-'')]"
    using resume_protocol [OF r m, where f = "Some 40" and e = 100 and n = 40
        and validURL = "\<lambda>u. True" and rnd = "\<lambda>k. 0" and rc = 0 and le = None and replies = "[]"]
    by (simp add: s)
  have i3: "beforeAttempt (?O (Some 100)) (Some 100) = (0, None)"
    using resume_protocol [OF r m, where f = "Some 100" and e = 100 and n = 100]
    by simp
  have i4: "hd (snd (snd (streamDown_loop (\<lambda>u. True) (?O None) (\<lambda>k. 0) 0 0 None [] (Some 40))))
              = Get ''https://data.example/gnaf.zip'' [(''Range'', ''bytes=40-'')]"
    using resume_protocol [OF r m, where f = "Some 40" and n = 40
        and validURL = "\<lambda>u. True" and rnd = "\<lambda>k. 0" and rc = 0 and le = None and replies = "[]"]
    by (simp add: s)
  show ?thesis
    using i1 i2 i3 i4 by simp
qed

subsection \<open>Resumable fetcher: HTTP 416\<close>


text \<open>Only the 416 branch sets the restart mark, and it leaves no file behind.\<close>

lemma receiveBody_no_restart:
  "receiveBody opts es response f = (Rejected e, f', u) \<Longrightarrow> \<not> requiresRestart e"
  by (auto simp: receiveBody_def onEnd_def Let_def nodeError_def dataOverflowError_def
        sizeMismatchError_def prematureCloseError_def socketTimeoutError_def
        requestTimeoutError_def idleTimeoutError_def
        split: prod.splits option.splits StreamFinish.splits if_splits)

lemma attemptDownload_restart_is_416:
  "attemptDownload validURL opts es ra replies f = (Rejected e, rest, f', evs, u) \<Longrightarrow> requiresRestart e
     \<Longrightarrow> e = http416Error \<and> f' = None \<and> \<not> u"
proof (induction validURL opts es ra replies f arbitrary: e rest f' evs u rule: attemptDownload.induct)
  case (1 validURL opts existingSize retryAttempt f)
  then show ?case by (auto simp: connectTimeoutError_def)
next
  case (2 validURL opts existingSize retryAttempt reply replies f)
  show ?case
  proof (cases reply)
    case ConnectTimedOut
    then show ?thesis using 2(3,4) by (auto simp: connectTimeoutError_def)
  next
    case RequestTimedOut
    then show ?thesis using 2(3,4) by (auto simp: requestTimeoutError_def)
  next
    case (RequestError c msg)
    then show ?thesis using 2(3,4) by (auto simp: nodeError_def)
  next
    case (Responded response)
    show ?thesis
      using 2(3,4) 2(1) [OF refl refl refl Responded] 2(2) [OF refl refl refl Responded]
        receiveBody_no_restart
      by (auto simp: Responded Let_def safeDeleteFile_def createWriteStream_def
            httpStatusError_def split: if_splits prod.splits option.splits)
  qed
qed


text \<open>The restart starts from scratch: with no file on disk the next request carries
  no \<open>Range\<close> header.\<close>

lemma restart_is_fresh:
  "beforeAttempt opts None = (0, None)" "requestHeaders 0 = []"
  by (simp_all add: beforeAttempt_def validatePartialFile_def getExistingFileSize_def
        requestHeaders_def Let_def)






text \<open>Whole runs with no retry allowed (\<open>maxRetries = 0\<close>): three 416 answers are
  absorbed as restarts, the fourth ends the call.\<close>

lemma streamDown_416_runs:
  "streamDown (\<lambda>u. True) \<lparr>url = ''https://data.example/gnaf.zip'', expectedSize = Some 100,
        enableResume = None, maxRetries = Some 0, initialBackoff = None, maxBackoff = None,
        backoffMultiplier = None, socketTimeout = None, connectTimeout = None\<rparr>
      (\<lambda>k. 0)
      (replicate 3 (Responded \<lparr>statusCode = Some 416, statusMessage = ''Range Not Satisfiable'',
          location = None, contentLength = None, chunks = [], finish = Ended\<rparr>) @
       [Responded \<lparr>statusCode = Some 200, statusMessage = ''OK'',
          location = None, contentLength = Some 100, chunks = [60, 40], finish = Ended\<rparr>])
      (Some 40)
    = (Fulfilled \<lparr>statusCode = Some 200, statusMessage = ''OK'',
          location = None, contentLength = Some 100, chunks = [60, 40], finish = Ended\<rparr>,
       Some 100,
       [Get ''https://data.example/gnaf.zip'' [(''Range'', ''bytes=40-'')], Sleep 1000,
        Get ''https://data.example/gnaf.zip'' [], Sleep 1000,
        Get ''https://data.example/gnaf.zip'' [], Sleep 1000,
        Get ''https://data.example/gnaf.zip'' []])"
  "streamDown (\<lambda>u. True) \<lparr>url = ''https://data.example/gnaf.zip'', expectedSize = Some 100,
        enableResume = None, maxRetries = Some 0, initialBackoff = None, maxBackoff = None,
        backoffMultiplier = None, socketTimeout = None, connectTimeout = None\<rparr>
      (\<lambda>k. 0)
      (replicate 4 (Responded \<lparr>statusCode = Some 416, statusMessage = ''Range Not Satisfiable'',
          location = None, contentLength = None, chunks = [], finish = Ended\<rparr>) @
       [Responded \<lparr>statusCode = Some 200, statusMessage = ''OK'',
          location = None, contentLength = Some 100, chunks = [60, 40], finish = Ended\<rparr>])
      (Some 40)
    = (Failed \<lparr>d_message = ''Download failed: file corruption detected 4 times'',
               d_code = Some ''CORRUPT_FILE_LOOP'', attempts = 1, isRetryable = False,
               bytesDownloaded = 0\<rparr>,
       None,
       [Get ''https://data.example/gnaf.zip'' [(''Range'', ''bytes=40-'')], Sleep 1000,
        Get ''https://data.example/gnaf.zip'' [], Sleep 1000,
        Get ''https://data.example/gnaf.zip'' [], Sleep 1000,
        Get ''https://data.example/gnaf.zip'' []])"
  by code_simp+

subsection \<open>Resumable fetcher: corruption detection\<close>


text \<open>The chunk with which the count first exceeds the threshold is not written, and
  the file keeps the chunks before it.\<close>

lemma writeChunks_first_overflow:
  assumes "totalBytes > 0"
      and "pre = [] \<or> of_nat (w + sum_list pre) \<le> overflowThreshold e"
      and "of_nat (w + sum_list pre + c) > overflowThreshold e"
  shows "writeChunks totalBytes e w (pre @ c # post) f =
           (Some (w + sum_list pre + c), w + sum_list pre,
            if pre = [] then f else Some (getExistingFileSize f + sum_list pre))"
  using assms
proof (induction pre arbitrary: w f)
  case Nil
  then show ?case by simp
next
  case (Cons x xs)
  have all: "(of_nat (w + sum_list (x # xs)) :: rat) \<le> overflowThreshold e"
    using Cons.prems(2) by simp
  have le: "(of_nat (w + x) :: rat) \<le> of_nat (w + sum_list (x # xs))"
    by (simp only: of_nat_le_iff) simp
  have here: "\<not> of_nat (w + x) > overflowThreshold e"
    using all le by linarith
  have p2: "xs = [] \<or> of_nat ((w + x) + sum_list xs) \<le> overflowThreshold e"
    using all by (simp add: add.assoc)
  have p3: "of_nat ((w + x) + sum_list xs + c) > overflowThreshold e"
    using Cons.prems(3) by (simp add: add.assoc)
  show ?case
    using here Cons.IH [OF Cons.prems(1) p2 p3, of "fileWrite x f"]
    by (auto simp: fileWrite_def getExistingFileSize_def add.assoc)
qed

text \<open>Every body that exceeds the threshold has such a first chunk.\<close>

lemma first_overflow_split:
  assumes "of_nat (sum_list pre + c) > (t :: rat)"
  shows "\<exists>pre' c' post'. pre @ c # post = pre' @ c' # post' \<and>
           (pre' = [] \<or> of_nat (sum_list pre') \<le> t) \<and> of_nat (sum_list pre' + c') > t"
  using assms
proof (induction pre arbitrary: c post rule: rev_induct)
  case Nil
  then show ?case by blast
next
  case (snoc x xs)
  show ?case
  proof (cases "of_nat (sum_list (xs @ [x])) \<le> t")
    case True
    then show ?thesis using snoc.prems by blast
  next
    case False
    then have "of_nat (sum_list xs + x) > t" by simp
    from snoc.IH [OF this, of "c # post"]
    show ?thesis by simp
  qed
qed

lemma attemptDownload_body:
  assumes "bodyAccepted es response"
  shows "attemptDownload validURL opts es ra (Responded response # rest) f =
           (case receiveBody opts es response (createWriteStream (0 < es) f) of
              (res, f', unlinkOnClose) \<Rightarrow>
                (res, rest, f', [Get (url opts) (requestHeaders es)], unlinkOnClose))"
  using assms
  by (auto simp: bodyAccepted_def Let_def split: option.splits)

lemma retryable_codes:
  "isRetryableError (dataOverflowError received e)"
  "isRetryableError (sizeMismatchError totalBytes finalSize)"
  by (simp_all add: isRetryableError_def dataOverflowError_def sizeMismatchError_def
        RETRYABLE_ERROR_CODES_def)

lemma attemptDownload_overflow:
  assumes "bodyAccepted es response" and "0 < totalBytesOf opts es response"
      and "chunks response = pre @ c # post"
      and "pre = [] \<or> of_nat (sum_list pre) \<le> overflowThreshold (expectedBytesThisSessionOf opts es response)"
      and "of_nat (sum_list pre + c) > overflowThreshold (expectedBytesThisSessionOf opts es response)"
  shows "attemptDownload validURL opts es ra (Responded response # rest) f =
           (Rejected (dataOverflowError (sum_list pre + c) (expectedBytesThisSessionOf opts es response)),
            rest, Some (getExistingFileSize (createWriteStream (0 < es) f) + sum_list pre),
            [Get (url opts) (requestHeaders es)], True)"
proof -
  let ?E = "expectedBytesThisSessionOf opts es response"
  let ?T = "totalBytesOf opts es response"
  let ?file = "createWriteStream (0 < es) f"
  let ?kept = "Some (getExistingFileSize ?file + sum_list pre)"
  have p2: "pre = [] \<or> of_nat (0 + sum_list pre) \<le> overflowThreshold ?E"
    using assms(4) by simp
  have p3: "of_nat (0 + sum_list pre + c) > overflowThreshold ?E"
    using assms(5) by simp
  have kept: "(if pre = [] then ?file else ?kept) = ?kept"
    by (simp add: createWriteStream_def getExistingFileSize_def)
  have w: "writeChunks ?T ?E 0 (chunks response) ?file = (Some (sum_list pre + c), sum_list pre, ?kept)"
    using writeChunks_first_overflow [OF assms(2) p2 p3, of post ?file] assms(3) kept by simp
  show ?thesis
    by (simp add: attemptDownload_body [OF assms(1)] receiveBody_def w Let_def
          del: attemptDownload.simps)
qed



text \<open>The loop on an overflowing body. With no retry left the \<open>DownloadError\<close>
  reports the bytes that the file still holds when the attempt is rejected, and the
  file is gone afterwards; with a retry left the loop sleeps and runs again with no
  file on disk.\<close>

lemma streamDown_loop_overflow:
  assumes "attempt \<le> maxRetriesOf opts"
      and "beforeAttempt opts f = (es, f1)"
      and "bodyAccepted es response" and "0 < totalBytesOf opts es response"
      and "chunks response = pre @ c # post"
      and "pre = [] \<or> of_nat (sum_list pre) \<le> overflowThreshold (expectedBytesThisSessionOf opts es response)"
      and "of_nat (sum_list pre + c) > overflowThreshold (expectedBytesThisSessionOf opts es response)"
  shows "streamDown_loop validURL opts rnd attempt restartCount lastError (Responded response # rest) f =
     (if attempt < maxRetriesOf opts then
        (case streamDown_loop validURL opts rnd (attempt + 1) restartCount
                (Some (dataOverflowError (sum_list pre + c) (expectedBytesThisSessionOf opts es response)))
                rest None of
           (res, f', evs) \<Rightarrow>
             (res, f', Get (url opts) (requestHeaders es) #
                       Sleep (retryDelay opts attempt (rnd attempt)) # evs))
      else
        (Failed \<lparr>d_message = ''Download failed after '' @ showNat (attempt + 1) @ '' attempt(s): '' @
                   message (dataOverflowError (sum_list pre + c)
                              (expectedBytesThisSessionOf opts es response)),
                 d_code = Some ''DATA_OVERFLOW'',
                 attempts = attempt + 1,
                 isRetryable = True,
                 bytesDownloaded = getExistingFileSize (createWriteStream (0 < es) f1) + sum_list pre\<rparr>,
         None, [Get (url opts) (requestHeaders es)]))"
proof -
  let ?e = "dataOverflowError (sum_list pre + c) (expectedBytesThisSessionOf opts es response)"
  have r: "\<not> requiresRestart ?e" and cd: "code ?e = Some ''DATA_OVERFLOW''"
    by (simp_all add: dataOverflowError_def)
  have re: "isRetryableError ?e"
    by (rule retryable_codes(1))
  show ?thesis
    using assms(1)
    by (subst streamDown_loop.simps)
       (simp add: assms(2) attemptDownload_overflow [OF assms(3-7)] r cd re afterClose_def
          safeDeleteFile_def getExistingFileSize_def Let_def
          del: attemptDownload.simps split: prod.splits)
qed

lemma streamDown_overflow_run:
  "streamDown (\<lambda>u. True) \<lparr>url = ''https://data.example/gnaf.zip'', expectedSize = None,
        enableResume = None, maxRetries = Some 0, initialBackoff = None, maxBackoff = None,
        backoffMultiplier = None, socketTimeout = None, connectTimeout = None\<rparr>
      (\<lambda>k. 0)
      [Responded \<lparr>statusCode = Some 200, statusMessage = ''OK'', location = None,
          contentLength = Some 1000, chunks = [600, 1500], finish = Ended\<rparr>]
      None
    = (Failed \<lparr>d_message = ''Download failed after 1 attempt(s): Data overflow detected: received 2100 bytes but expected ~1000'',
               d_code = Some ''DATA_OVERFLOW'', attempts = 1, isRetryable = True,
               bytesDownloaded = 600\<rparr>,
       None, [Get ''https://data.example/gnaf.zip'' []])"
proof -
  let ?O = "\<lparr>url = ''https://data.example/gnaf.zip'', expectedSize = None,
        enableResume = None, maxRetries = Some 0, initialBackoff = None, maxBackoff = None,
        backoffMultiplier = None, socketTimeout = None, connectTimeout = None\<rparr>"
  let ?R = "\<lparr>statusCode = Some 200, statusMessage = ''OK'', location = None,
          contentLength = Some 1000, chunks = [600, 1500], finish = Ended\<rparr>"
  have m: "0 \<le> maxRetriesOf ?O" by simp
  have b: "beforeAttempt ?O None = (0, None)"
    by (rule restart_is_fresh(1))
  have a: "bodyAccepted 0 ?R"
    by (simp add: bodyAccepted_def isRedirect_def RETRYABLE_HTTP_STATUS_CODES_def)
  have t: "0 < totalBytesOf ?O 0 ?R"
    by (simp add: totalBytesOf_def)
  have e: "expectedBytesThisSessionOf ?O 0 ?R = 1000"
    by (simp add: expectedBytesThisSessionOf_def totalBytesOf_def)
  have c: "chunks ?R = [600] @ 1500 # []" by simp
  have p2: "[600] = [] \<or> of_nat (sum_list [600]) \<le> overflowThreshold (expectedBytesThisSessionOf ?O 0 ?R)"
    by (simp add: e overflowThreshold_def)
  have p3: "of_nat (sum_list [600] + 1500) > overflowThreshold (expectedBytesThisSessionOf ?O 0 ?R)"
    by (simp add: e overflowThreshold_def)
  have s1: "showNat (Suc 0) = ''1''" and s2: "showNat 2100 = ''2100''" and s3: "showInt 1000 = ''1000''"
    by code_simp+
  show ?thesis
    using streamDown_loop_overflow [OF m b a t c p2 p3, of "\<lambda>u. True" "\<lambda>k. 0" 0 None "[]"]
    by (simp add: streamDown_def e maxRetriesOf_def dataOverflowError_def s1 s2 s3
          createWriteStream_def getExistingFileSize_def requestHeaders_def)
qed

text \<open>A silent open socket: with the default timeouts the request's idle timeout
  fires (\<open>ETIMEDOUT\<close>); \<open>SOCKET_TIMEOUT\<close> needs a shorter \<open>socketTimeout\<close>. A redirect to
  a \<open>Location\<close> that \<open>new URL\<close> rejects leaves the promise unsettled.\<close>

lemma idleTimeoutError_default:
  "socketTimeout opts = None \<Longrightarrow> connectTimeout opts = None
     \<Longrightarrow> code (idleTimeoutError opts) = Some ''ETIMEDOUT''"
  "socketTimeout opts = Some s \<Longrightarrow> connectTimeout opts = Some k \<Longrightarrow> s < k
     \<Longrightarrow> code (idleTimeoutError opts) = Some ''SOCKET_TIMEOUT''"
  by (simp_all add: idleTimeoutError_def requestTimeoutError_def socketTimeoutError_def)

lemma attemptDownload_relative_redirect:
  assumes "isRedirect response" and "\<not> validURL (the (location response))"
  shows "fst (attemptDownload validURL opts es ra (Responded response # rest) f) = Uncaught"
  using assms by (simp add: Let_def)

subsection \<open>Multi-line rendering\<close>

text \<open>
  C8. A multi-line address that \<open>mapToMla\<close> (or \<open>mapToShortMla\<close>) returns has at least
  one and at most four lines, and composed lines that number more than four are
  refused with an error instead of being returned.
\<close>

theorem mla_line_budget:
  "(mapToMla s = Inr ls \<longrightarrow> 1 \<le> length ls \<and> length ls \<le> 4)
   \<and> (mapToShortMla s = Inr ls \<longrightarrow> 1 \<le> length ls \<and> length ls \<le> 4)
   \<and> (4 < length fla \<longrightarrow> mlaGuard fla = Inl (FlaTooLong fla))"
  by (auto simp: mapToMla_def mapToShortMla_def mlaGuard_def composeMla_def split: if_splits)

theorem mla_line_budget_witness:
  "mapToMla \<lparr>buildingNameLine = ''TOWER ONE'', levelFlatLine = [],
             numberStreetLine = ''300 BARANGAROO AV'', locality = ''BARANGAROO'',
             state = ''NSW'', postcode = ''2000''\<rparr>
     = Inr [''TOWER ONE'', ''300 BARANGAROO AV'', ''BARANGAROO NSW 2000'']
   \<and> mapToShortMla \<lparr>buildingNameLine = [], levelFlatLine = ''25/3'',
             numberStreetLine = ''300 BARANGAROO AV'', locality = ''BARANGAROO'',
             state = ''NSW'', postcode = ''2000''\<rparr>
     = Inr [''25/3'', ''300 BARANGAROO AV'', ''BARANGAROO NSW 2000'']
   \<and> mlaGuard [''A'', ''B'', ''C'', ''D'', ''E''] = Inl (FlaTooLong [''A'', ''B'', ''C'', ''D'', ''E''])"
proof -
  let ?s = "\<lparr>buildingNameLine = ''TOWER ONE'', levelFlatLine = [],
             numberStreetLine = ''300 BARANGAROO AV'', locality = ''BARANGAROO'',
             state = ''NSW'', postcode = ''2000''\<rparr>"
  let ?t = "\<lparr>buildingNameLine = [], levelFlatLine = ''25/3'',
             numberStreetLine = ''300 BARANGAROO AV'', locality = ''BARANGAROO'',
             state = ''NSW'', postcode = ''2000''\<rparr>"
  have e1: "mapToMla ?s = Inr [''TOWER ONE'', ''300 BARANGAROO AV'', ''BARANGAROO NSW 2000'']"
    by (simp add: mapToMla_def mlaGuard_def composeMla_def)
  have e2: "mapToShortMla ?t = Inr [''25/3'', ''300 BARANGAROO AV'', ''BARANGAROO NSW 2000'']"
    by (simp add: mapToShortMla_def mlaGuard_def composeMla_def)
  have g: "(4::nat) < length [''A'', ''B'', ''C'', ''D'', ''E'']"
    by simp
  show ?thesis
    using e1 e2 g
      mla_line_budget [of ?s "[''TOWER ONE'', ''300 BARANGAROO AV'', ''BARANGAROO NSW 2000'']"
        "[''A'', ''B'', ''C'', ''D'', ''E'']"]
    by simp
qed

subsection \<open>Authority-code lookups\<close>

lemma find_append_case:
  "List.find P (xs @ ys) = (case List.find P xs of Some x \<Rightarrow> Some x | None \<Rightarrow> List.find P ys)"
  by (induction xs) auto

lemma find_SomeD: "List.find P xs = Some x \<Longrightarrow> x \<in> set xs \<and> P x"
  by (induction xs) (auto split: if_splits)

text \<open>\<open>buildCodeMap\<close> keeps, for every code, the name of the last entry that carries it.\<close>

lemma fold_set_find_rev:
  "fold (\<lambda>entry m. m(CODE entry \<mapsto> NAME entry)) es m0 c =
     (case List.find (\<lambda>e. CODE e = c) (rev es) of Some e \<Rightarrow> Some (NAME e) | None \<Rightarrow> m0 c)"
  by (induction es arbitrary: m0) (auto simp: find_append_case split: option.splits)

lemma buildCodeMap_last:
  "buildCodeMap es c = map_option NAME (List.find (\<lambda>e. CODE e = c) (rev es))"
  by (simp add: buildCodeMap_def fold_set_find_rev split: option.splits)

lemma find_rev_distinct:
  "distinct (map CODE es) \<Longrightarrow>
     List.find (\<lambda>e. CODE e = c) (rev es) = List.find (\<lambda>e. CODE e = c) es"
proof (induction es)
  case Nil
  then show ?case by simp
next
  case (Cons x xs)
  then have ih: "List.find (\<lambda>e. CODE e = c) (rev xs) = List.find (\<lambda>e. CODE e = c) xs"
    by simp
  show ?case
  proof (cases "CODE x = c")
    case True
    have "CODE x \<notin> CODE ` set xs"
      using Cons.prems by simp
    then have "\<not> (\<exists>e. e \<in> set xs \<and> CODE e = c)"
      using True by (metis imageI)
    then have "List.find (\<lambda>e. CODE e = c) xs = None"
      by (simp add: find_None_iff)
    then show ?thesis
      using True ih by (simp add: find_append_case)
  next
    case False
    then show ?thesis
      using ih by (simp add: find_append_case split: option.splits)
  qed
qed

lemma resolvesCode_find:
  assumes "logs \<noteq> []"
  shows "resolvesCode table c
           (case List.find (\<lambda>entry. CODE entry = c) table of
              Some found \<Rightarrow> (Some (NAME found), [])
            | None \<Rightarrow> (None, logs))"
proof (cases "List.find (\<lambda>entry. CODE entry = c) table")
  case None
  then have n: "\<not> (\<exists>e\<in>set table. CODE e = c)"
    by (simp add: find_None_iff)
  show ?thesis
    by (simp add: None resolvesCode_def list_ex_iff n assms)
next
  case (Some e)
  then have "e \<in> set table \<and> CODE e = c"
    by (rule find_SomeD)
  then show ?thesis
    by (auto simp: Some resolvesCode_def list_ex_iff)
qed

lemma resolvesCode_map:
  assumes "logs \<noteq> []"
  shows "resolvesCode table c
           (case buildCodeMap table c of
              Some name \<Rightarrow> (Some name, [])
            | None \<Rightarrow> (None, logs))"
proof (cases "List.find (\<lambda>entry. CODE entry = c) (rev table)")
  case None
  then have n: "\<not> (\<exists>e\<in>set table. CODE e = c)"
    by (simp add: find_None_iff)
  show ?thesis
    by (simp add: None resolvesCode_def list_ex_iff n assms buildCodeMap_last)
next
  case (Some e)
  then have "e \<in> set (rev table) \<and> CODE e = c"
    by (rule find_SomeD)
  then show ?thesis
    by (auto simp: Some resolvesCode_def list_ex_iff buildCodeMap_last)
qed

text \<open>The two lookups give the same result exactly when the last entry that carries
  the code has the name of the first; so they do whenever all entries that carry
  the code have the same name, and whenever the code is carried at most once.\<close>

lemma find_map_agree_iff:
  "((case buildCodeMap table c of
       Some name \<Rightarrow> (Some name, [])
     | None \<Rightarrow> (None, logs)) =
    (case List.find (\<lambda>entry. CODE entry = c) table of
       Some found \<Rightarrow> (Some (NAME found), [])
     | None \<Rightarrow> (None, logs)))
   = (lastNameOf table c = firstNameOf table c)"
proof (cases "List.find (\<lambda>entry. CODE entry = c) table")
  case None
  then have "\<not> (\<exists>e. e \<in> set (rev table) \<and> CODE e = c)"
    by (simp add: find_None_iff)
  then have "List.find (\<lambda>entry. CODE entry = c) (rev table) = None"
    by (simp only: find_None_iff) simp
  then show ?thesis
    by (simp add: None buildCodeMap_last lastNameOf_def firstNameOf_def)
next
  case (Some e)
  then show ?thesis
    by (cases "List.find (\<lambda>entry. CODE entry = c) (rev table)")
       (simp_all add: buildCodeMap_last lastNameOf_def firstNameOf_def)
qed

lemma same_name_agree:
  assumes "\<forall>e1\<in>set table. \<forall>e2\<in>set table. CODE e1 = c \<and> CODE e2 = c \<longrightarrow> NAME e1 = NAME e2"
  shows "lastNameOf table c = firstNameOf table c"
proof (cases "List.find (\<lambda>entry. CODE entry = c) table")
  case None
  then have "\<not> (\<exists>e. e \<in> set (rev table) \<and> CODE e = c)"
    by (simp add: find_None_iff)
  then have "List.find (\<lambda>entry. CODE entry = c) (rev table) = None"
    by (simp only: find_None_iff) simp
  then show ?thesis
    by (simp add: None lastNameOf_def firstNameOf_def)
next
  case (Some e1)
  then have m1: "e1 \<in> set table \<and> CODE e1 = c"
    by (rule find_SomeD)
  then have "\<exists>e. e \<in> set (rev table) \<and> CODE e = c"
    by auto
  then obtain e2 where l: "List.find (\<lambda>entry. CODE entry = c) (rev table) = Some e2"
    by (cases "List.find (\<lambda>entry. CODE entry = c) (rev table)") (auto simp: find_None_iff)
  then have "e2 \<in> set (rev table) \<and> CODE e2 = c"
    by (rule find_SomeD)
  then have "NAME e2 = NAME e1"
    using assms m1 by auto
  then show ?thesis
    by (simp add: Some l lastNameOf_def firstNameOf_def)
qed

lemma distinct_codes_agree:
  "distinct (map CODE table) \<Longrightarrow> lastNameOf table c = firstNameOf table c"
  by (simp add: lastNameOf_def firstNameOf_def find_rev_distinct)

lemma memoFor_built: "memoFor table (Some (buildCodeMap table))"
  by (simp add: memoFor_def)

text \<open>The helpers of the TypeScript source.\<close>

lemma levelTypeCodeToName_resolves:
  "resolvesCode (Authority_Code_LEVEL_TYPE_AUT_psv context) c (levelTypeCodeToName c context address)"
  unfolding levelTypeCodeToName_def by (rule resolvesCode_find) simp

lemma flatTypeCodeToName_resolves:
  "resolvesCode (Authority_Code_FLAT_TYPE_AUT_psv context) c (flatTypeCodeToName c context address)"
  unfolding flatTypeCodeToName_def by (rule resolvesCode_find) simp

lemma streetTypeCodeToName_resolves:
  "resolvesCode (Authority_Code_STREET_TYPE_AUT_psv context) c (streetTypeCodeToName c context address)"
  unfolding streetTypeCodeToName_def by (rule resolvesCode_find) simp

lemma streetClassCodeToName_resolves:
  "resolvesCode (Authority_Code_STREET_CLASS_AUT_psv context) c (streetClassCodeToName c context address)"
  unfolding streetClassCodeToName_def by (rule resolvesCode_find) simp

lemma localityClassCodeToName_resolves:
  "resolvesCode (Authority_Code_LOCALITY_CLASS_AUT_psv context) c (localityClassCodeToName c context)"
  unfolding localityClassCodeToName_def by (rule resolvesCode_find) simp

lemma streetSuffixCodeToName_resolves:
  "resolvesCode (Authority_Code_STREET_SUFFIX_AUT_psv context) c (streetSuffixCodeToName c context)"
  unfolding streetSuffixCodeToName_def by (rule resolvesCode_find) simp

lemma geocodeReliabilityCodeToName_resolves:
  "resolvesCode (Authority_Code_GEOCODE_RELIABILITY_AUT_psv context) c (geocodeReliabilityCodeToName c context)"
  unfolding geocodeReliabilityCodeToName_def by (rule resolvesCode_find) simp

lemma geocodeTypeCodeToName_resolves:
  "resolvesCode (Authority_Code_GEOCODE_TYPE_AUT_psv context) c (geocodeTypeCodeToName c context)"
  unfolding geocodeTypeCodeToName_def by (rule resolvesCode_find) simp

lemma levelGeocodedCodeToName_resolves:
  "resolvesCode (Authority_Code_GEOCODED_LEVEL_TYPE_AUT_psv context) c (levelGeocodedCodeToName c context)"
  unfolding levelGeocodedCodeToName_def by (rule resolvesCode_find) simp

text \<open>The helpers of the compiled module, on a memoised map that is unset or was built
  from the table of the context.\<close>

lemma levelTypeCodeToName_dist_result:
  assumes "memoFor (Authority_Code_LEVEL_TYPE_AUT_psv context) (levelTypeMap st)"
  shows "fst (levelTypeCodeToName_dist c context address st) =
           (case buildCodeMap (Authority_Code_LEVEL_TYPE_AUT_psv context) c of
              Some name \<Rightarrow> (Some name, [])
            | None \<Rightarrow> (None, [Message (unknownCode ''Level Type'' c), AddressObject address]))"
  using assms
  by (auto simp: memoFor_def levelTypeCodeToName_dist_def getLevelTypeMap_def Let_def split: option.splits)

lemma levelTypeCodeToName_dist_resolves:
  assumes "memoFor (Authority_Code_LEVEL_TYPE_AUT_psv context) (levelTypeMap st)"
  shows "resolvesCode (Authority_Code_LEVEL_TYPE_AUT_psv context) c (fst (levelTypeCodeToName_dist c context address st))"
  unfolding levelTypeCodeToName_dist_result [OF assms] by (rule resolvesCode_map) simp

lemma levelTypeCodeToName_dist_keeps:
  assumes "mapsFor context st"
  shows "mapsFor context (snd (levelTypeCodeToName_dist c context address st))"
proof (cases "levelTypeMap st")
  case None
  then show ?thesis
    using assms
    by (simp add: mapsFor_def levelTypeCodeToName_dist_def getLevelTypeMap_def Let_def memoFor_built
          split: option.splits)
next
  case (Some m)
  then show ?thesis
    using assms
    by (simp add: levelTypeCodeToName_dist_def getLevelTypeMap_def split: option.splits)
qed

lemma flatTypeCodeToName_dist_result:
  assumes "memoFor (Authority_Code_FLAT_TYPE_AUT_psv context) (flatTypeMap st)"
  shows "fst (flatTypeCodeToName_dist c context address st) =
           (case buildCodeMap (Authority_Code_FLAT_TYPE_AUT_psv context) c of
              Some name \<Rightarrow> (Some name, [])
            | None \<Rightarrow> (None, [Message (unknownCode ''Flat Type'' c), AddressObject address]))"
  using assms
  by (auto simp: memoFor_def flatTypeCodeToName_dist_def getFlatTypeMap_def Let_def split: option.splits)

lemma flatTypeCodeToName_dist_resolves:
  assumes "memoFor (Authority_Code_FLAT_TYPE_AUT_psv context) (flatTypeMap st)"
  shows "resolvesCode (Authority_Code_FLAT_TYPE_AUT_psv context) c (fst (flatTypeCodeToName_dist c context address st))"
  unfolding flatTypeCodeToName_dist_result [OF assms] by (rule resolvesCode_map) simp

lemma flatTypeCodeToName_dist_keeps:
  assumes "mapsFor context st"
  shows "mapsFor context (snd (flatTypeCodeToName_dist c context address st))"
proof (cases "flatTypeMap st")
  case None
  then show ?thesis
    using assms
    by (simp add: mapsFor_def flatTypeCodeToName_dist_def getFlatTypeMap_def Let_def memoFor_built
          split: option.splits)
next
  case (Some m)
  then show ?thesis
    using assms
    by (simp add: flatTypeCodeToName_dist_def getFlatTypeMap_def split: option.splits)
qed

lemma streetTypeCodeToName_dist_result:
  assumes "memoFor (Authority_Code_STREET_TYPE_AUT_psv context) (streetTypeMap st)"
  shows "fst (streetTypeCodeToName_dist c context address st) =
           (case buildCodeMap (Authority_Code_STREET_TYPE_AUT_psv context) c of
              Some name \<Rightarrow> (Some name, [])
            | None \<Rightarrow> (None, [Message (unknownCode ''Street Type'' c)]))"
  using assms
  by (auto simp: memoFor_def streetTypeCodeToName_dist_def getStreetTypeMap_def Let_def split: option.splits)

lemma streetTypeCodeToName_dist_resolves:
  assumes "memoFor (Authority_Code_STREET_TYPE_AUT_psv context) (streetTypeMap st)"
  shows "resolvesCode (Authority_Code_STREET_TYPE_AUT_psv context) c (fst (streetTypeCodeToName_dist c context address st))"
  unfolding streetTypeCodeToName_dist_result [OF assms] by (rule resolvesCode_map) simp

lemma streetTypeCodeToName_dist_keeps:
  assumes "mapsFor context st"
  shows "mapsFor context (snd (streetTypeCodeToName_dist c context address st))"
proof (cases "streetTypeMap st")
  case None
  then show ?thesis
    using assms
    by (simp add: mapsFor_def streetTypeCodeToName_dist_def getStreetTypeMap_def Let_def memoFor_built
          split: option.splits)
next
  case (Some m)
  then show ?thesis
    using assms
    by (simp add: streetTypeCodeToName_dist_def getStreetTypeMap_def split: option.splits)
qed

lemma streetClassCodeToName_dist_result:
  assumes "memoFor (Authority_Code_STREET_CLASS_AUT_psv context) (streetClassMap st)"
  shows "fst (streetClassCodeToName_dist c context address st) =
           (case buildCodeMap (Authority_Code_STREET_CLASS_AUT_psv context) c of
              Some name \<Rightarrow> (Some name, [])
            | None \<Rightarrow> (None, [Message (unknownCode ''Street Class'' c)]))"
  using assms
  by (auto simp: memoFor_def streetClassCodeToName_dist_def getStreetClassMap_def Let_def split: option.splits)

lemma streetClassCodeToName_dist_resolves:
  assumes "memoFor (Authority_Code_STREET_CLASS_AUT_psv context) (streetClassMap st)"
  shows "resolvesCode (Authority_Code_STREET_CLASS_AUT_psv context) c (fst (streetClassCodeToName_dist c context address st))"
  unfolding streetClassCodeToName_dist_result [OF assms] by (rule resolvesCode_map) simp

lemma streetClassCodeToName_dist_keeps:
  assumes "mapsFor context st"
  shows "mapsFor context (snd (streetClassCodeToName_dist c context address st))"
proof (cases "streetClassMap st")
  case None
  then show ?thesis
    using assms
    by (simp add: mapsFor_def streetClassCodeToName_dist_def getStreetClassMap_def Let_def memoFor_built
          split: option.splits)
next
  case (Some m)
  then show ?thesis
    using assms
    by (simp add: streetClassCodeToName_dist_def getStreetClassMap_def split: option.splits)
qed

lemma localityClassCodeToName_dist_result:
  assumes "memoFor (Authority_Code_LOCALITY_CLASS_AUT_psv context) (localityClassMap st)"
  shows "fst (localityClassCodeToName_dist c context st) =
           (case buildCodeMap (Authority_Code_LOCALITY_CLASS_AUT_psv context) c of
              Some name \<Rightarrow> (Some name, [])
            | None \<Rightarrow> (None, [Message (unknownCode ''Locality Class'' c)]))"
  using assms
  by (auto simp: memoFor_def localityClassCodeToName_dist_def getLocalityClassMap_def Let_def split: option.splits)

lemma localityClassCodeToName_dist_resolves:
  assumes "memoFor (Authority_Code_LOCALITY_CLASS_AUT_psv context) (localityClassMap st)"
  shows "resolvesCode (Authority_Code_LOCALITY_CLASS_AUT_psv context) c (fst (localityClassCodeToName_dist c context st))"
  unfolding localityClassCodeToName_dist_result [OF assms] by (rule resolvesCode_map) simp

lemma localityClassCodeToName_dist_keeps:
  assumes "mapsFor context st"
  shows "mapsFor context (snd (localityClassCodeToName_dist c context st))"
proof (cases "localityClassMap st")
  case None
  then show ?thesis
    using assms
    by (simp add: mapsFor_def localityClassCodeToName_dist_def getLocalityClassMap_def Let_def memoFor_built
          split: option.splits)
next
  case (Some m)
  then show ?thesis
    using assms
    by (simp add: localityClassCodeToName_dist_def getLocalityClassMap_def split: option.splits)
qed

lemma streetSuffixCodeToName_dist_result:
  assumes "memoFor (Authority_Code_STREET_SUFFIX_AUT_psv context) (streetSuffixMap st)"
  shows "fst (streetSuffixCodeToName_dist c context st) =
           (case buildCodeMap (Authority_Code_STREET_SUFFIX_AUT_psv context) c of
              Some name \<Rightarrow> (Some name, [])
            | None \<Rightarrow> (None, [Message (unknownCode ''Street Suffix'' c)]))"
  using assms
  by (auto simp: memoFor_def streetSuffixCodeToName_dist_def getStreetSuffixMap_def Let_def split: option.splits)

lemma streetSuffixCodeToName_dist_resolves:
  assumes "memoFor (Authority_Code_STREET_SUFFIX_AUT_psv context) (streetSuffixMap st)"
  shows "resolvesCode (Authority_Code_STREET_SUFFIX_AUT_psv context) c (fst (streetSuffixCodeToName_dist c context st))"
  unfolding streetSuffixCodeToName_dist_result [OF assms] by (rule resolvesCode_map) simp

lemma streetSuffixCodeToName_dist_keeps:
  assumes "mapsFor context st"
  shows "mapsFor context (snd (streetSuffixCodeToName_dist c context st))"
proof (cases "streetSuffixMap st")
  case None
  then show ?thesis
    using assms
    by (simp add: mapsFor_def streetSuffixCodeToName_dist_def getStreetSuffixMap_def Let_def memoFor_built
          split: option.splits)
next
  case (Some m)
  then show ?thesis
    using assms
    by (simp add: streetSuffixCodeToName_dist_def getStreetSuffixMap_def split: option.splits)
qed

lemma geocodeReliabilityCodeToName_dist_result:
  assumes "memoFor (Authority_Code_GEOCODE_RELIABILITY_AUT_psv context) (geocodeReliabilityMap st)"
  shows "fst (geocodeReliabilityCodeToName_dist c context st) =
           (case buildCodeMap (Authority_Code_GEOCODE_RELIABILITY_AUT_psv context) c of
              Some name \<Rightarrow> (Some name, [])
            | None \<Rightarrow> (None, [Message (unknownCode ''Geocode Reliability'' c)]))"
  using assms
  by (auto simp: memoFor_def geocodeReliabilityCodeToName_dist_def getGeocodeReliabilityMap_def Let_def split: option.splits)

lemma geocodeReliabilityCodeToName_dist_resolves:
  assumes "memoFor (Authority_Code_GEOCODE_RELIABILITY_AUT_psv context) (geocodeReliabilityMap st)"
  shows "resolvesCode (Authority_Code_GEOCODE_RELIABILITY_AUT_psv context) c (fst (geocodeReliabilityCodeToName_dist c context st))"
  unfolding geocodeReliabilityCodeToName_dist_result [OF assms] by (rule resolvesCode_map) simp

lemma geocodeReliabilityCodeToName_dist_keeps:
  assumes "mapsFor context st"
  shows "mapsFor context (snd (geocodeReliabilityCodeToName_dist c context st))"
proof (cases "geocodeReliabilityMap st")
  case None
  then show ?thesis
    using assms
    by (simp add: mapsFor_def geocodeReliabilityCodeToName_dist_def getGeocodeReliabilityMap_def Let_def memoFor_built
          split: option.splits)
next
  case (Some m)
  then show ?thesis
    using assms
    by (simp add: geocodeReliabilityCodeToName_dist_def getGeocodeReliabilityMap_def split: option.splits)
qed

lemma geocodeTypeCodeToName_dist_result:
  assumes "memoFor (Authority_Code_GEOCODE_TYPE_AUT_psv context) (geocodeTypeMap st)"
  shows "fst (geocodeTypeCodeToName_dist c context st) =
           (case buildCodeMap (Authority_Code_GEOCODE_TYPE_AUT_psv context) c of
              Some name \<Rightarrow> (Some name, [])
            | None \<Rightarrow> (None, [Message (unknownCode ''Geocode Type'' c)]))"
  using assms
  by (auto simp: memoFor_def geocodeTypeCodeToName_dist_def getGeocodeTypeMap_def Let_def split: option.splits)

lemma geocodeTypeCodeToName_dist_resolves:
  assumes "memoFor (Authority_Code_GEOCODE_TYPE_AUT_psv context) (geocodeTypeMap st)"
  shows "resolvesCode (Authority_Code_GEOCODE_TYPE_AUT_psv context) c (fst (geocodeTypeCodeToName_dist c context st))"
  unfolding geocodeTypeCodeToName_dist_result [OF assms] by (rule resolvesCode_map) simp

lemma geocodeTypeCodeToName_dist_keeps:
  assumes "mapsFor context st"
  shows "mapsFor context (snd (geocodeTypeCodeToName_dist c context st))"
proof (cases "geocodeTypeMap st")
  case None
  then show ?thesis
    using assms
    by (simp add: mapsFor_def geocodeTypeCodeToName_dist_def getGeocodeTypeMap_def Let_def memoFor_built
          split: option.splits)
next
  case (Some m)
  then show ?thesis
    using assms
    by (simp add: geocodeTypeCodeToName_dist_def getGeocodeTypeMap_def split: option.splits)
qed

lemma levelGeocodedCodeToName_dist_result:
  assumes "memoFor (Authority_Code_GEOCODED_LEVEL_TYPE_AUT_psv context) (geocodedLevelTypeMap st)"
  shows "fst (levelGeocodedCodeToName_dist c context st) =
           (case buildCodeMap (Authority_Code_GEOCODED_LEVEL_TYPE_AUT_psv context) c of
              Some name \<Rightarrow> (Some name, [])
            | None \<Rightarrow> (None, [MessageWithTable (unknownCode ''Geocoded Level Type'' c @ '' in:'') (Authority_Code_GEOCODED_LEVEL_TYPE_AUT_psv context)]))"
  using assms
  by (auto simp: memoFor_def levelGeocodedCodeToName_dist_def getGeocodedLevelTypeMap_def Let_def split: option.splits)

lemma levelGeocodedCodeToName_dist_resolves:
  assumes "memoFor (Authority_Code_GEOCODED_LEVEL_TYPE_AUT_psv context) (geocodedLevelTypeMap st)"
  shows "resolvesCode (Authority_Code_GEOCODED_LEVEL_TYPE_AUT_psv context) c (fst (levelGeocodedCodeToName_dist c context st))"
  unfolding levelGeocodedCodeToName_dist_result [OF assms] by (rule resolvesCode_map) simp

lemma levelGeocodedCodeToName_dist_keeps:
  assumes "mapsFor context st"
  shows "mapsFor context (snd (levelGeocodedCodeToName_dist c context st))"
proof (cases "geocodedLevelTypeMap st")
  case None
  then show ?thesis
    using assms
    by (simp add: mapsFor_def levelGeocodedCodeToName_dist_def getGeocodedLevelTypeMap_def Let_def memoFor_built
          split: option.splits)
next
  case (Some m)
  then show ?thesis
    using assms
    by (simp add: levelGeocodedCodeToName_dist_def getGeocodedLevelTypeMap_def split: option.splits)
qed

lemma mapsFor_cleared: "mapsFor context (clearAuthorityCodeMaps st)"
  by (simp add: mapsFor_def memoFor_def clearAuthorityCodeMaps_def)

lemma mapsFor_unset: "mapsFor context unsetMaps"
  by (simp add: mapsFor_def memoFor_def unsetMaps_def)

text \<open>
  C9. Every helper of the TypeScript source resolves its code against the table of
  the context it is given: the name of an entry with that code when one is present,
  \<open>undefined\<close> with a logged diagnostic (and no exception) when none is. Every helper
  of the compiled module does the same whenever its memoised map is unset or was built
  from the tables of that context (the state after \<open>clearAuthorityCodeMaps\<close>, and after
  any earlier lookups with the same context).
\<close>

theorem lookup_helpers_resolve:
  assumes "mapsFor context st"
  shows "resolvesCode (Authority_Code_LEVEL_TYPE_AUT_psv context) c (levelTypeCodeToName c context address)
       \<and> resolvesCode (Authority_Code_FLAT_TYPE_AUT_psv context) c (flatTypeCodeToName c context address)
       \<and> resolvesCode (Authority_Code_STREET_TYPE_AUT_psv context) c (streetTypeCodeToName c context address)
       \<and> resolvesCode (Authority_Code_STREET_CLASS_AUT_psv context) c (streetClassCodeToName c context address)
       \<and> resolvesCode (Authority_Code_LOCALITY_CLASS_AUT_psv context) c (localityClassCodeToName c context)
       \<and> resolvesCode (Authority_Code_STREET_SUFFIX_AUT_psv context) c (streetSuffixCodeToName c context)
       \<and> resolvesCode (Authority_Code_GEOCODE_RELIABILITY_AUT_psv context) c (geocodeReliabilityCodeToName c context)
       \<and> resolvesCode (Authority_Code_GEOCODE_TYPE_AUT_psv context) c (geocodeTypeCodeToName c context)
       \<and> resolvesCode (Authority_Code_GEOCODED_LEVEL_TYPE_AUT_psv context) c (levelGeocodedCodeToName c context)
       \<and> resolvesCode (Authority_Code_LEVEL_TYPE_AUT_psv context) c
           (fst (levelTypeCodeToName_dist c context address st))
       \<and> resolvesCode (Authority_Code_FLAT_TYPE_AUT_psv context) c
           (fst (flatTypeCodeToName_dist c context address st))
       \<and> resolvesCode (Authority_Code_STREET_TYPE_AUT_psv context) c
           (fst (streetTypeCodeToName_dist c context address st))
       \<and> resolvesCode (Authority_Code_STREET_CLASS_AUT_psv context) c
           (fst (streetClassCodeToName_dist c context address st))
       \<and> resolvesCode (Authority_Code_LOCALITY_CLASS_AUT_psv context) c
           (fst (localityClassCodeToName_dist c context st))
       \<and> resolvesCode (Authority_Code_STREET_SUFFIX_AUT_psv context) c
           (fst (streetSuffixCodeToName_dist c context st))
       \<and> resolvesCode (Authority_Code_GEOCODE_RELIABILITY_AUT_psv context) c
           (fst (geocodeReliabilityCodeToName_dist c context st))
       \<and> resolvesCode (Authority_Code_GEOCODE_TYPE_AUT_psv context) c
           (fst (geocodeTypeCodeToName_dist c context st))
       \<and> resolvesCode (Authority_Code_GEOCODED_LEVEL_TYPE_AUT_psv context) c
           (fst (levelGeocodedCodeToName_dist c context st))"
proof -
  have m_levelType: "memoFor (Authority_Code_LEVEL_TYPE_AUT_psv context) (levelTypeMap st)"
    using assms by (simp add: mapsFor_def)
  have m_flatType: "memoFor (Authority_Code_FLAT_TYPE_AUT_psv context) (flatTypeMap st)"
    using assms by (simp add: mapsFor_def)
  have m_streetType: "memoFor (Authority_Code_STREET_TYPE_AUT_psv context) (streetTypeMap st)"
    using assms by (simp add: mapsFor_def)
  have m_streetClass: "memoFor (Authority_Code_STREET_CLASS_AUT_psv context) (streetClassMap st)"
    using assms by (simp add: mapsFor_def)
  have m_localityClass: "memoFor (Authority_Code_LOCALITY_CLASS_AUT_psv context) (localityClassMap st)"
    using assms by (simp add: mapsFor_def)
  have m_streetSuffix: "memoFor (Authority_Code_STREET_SUFFIX_AUT_psv context) (streetSuffixMap st)"
    using assms by (simp add: mapsFor_def)
  have m_geocodeReliability: "memoFor (Authority_Code_GEOCODE_RELIABILITY_AUT_psv context) (geocodeReliabilityMap st)"
    using assms by (simp add: mapsFor_def)
  have m_geocodeType: "memoFor (Authority_Code_GEOCODE_TYPE_AUT_psv context) (geocodeTypeMap st)"
    using assms by (simp add: mapsFor_def)
  have m_levelGeocoded: "memoFor (Authority_Code_GEOCODED_LEVEL_TYPE_AUT_psv context) (geocodedLevelTypeMap st)"
    using assms by (simp add: mapsFor_def)
  show ?thesis
    by (intro conjI
          levelTypeCodeToName_resolves
          flatTypeCodeToName_resolves
          streetTypeCodeToName_resolves
          streetClassCodeToName_resolves
          localityClassCodeToName_resolves
          streetSuffixCodeToName_resolves
          geocodeReliabilityCodeToName_resolves
          geocodeTypeCodeToName_resolves
          levelGeocodedCodeToName_resolves
          levelTypeCodeToName_dist_resolves [OF m_levelType]
          flatTypeCodeToName_dist_resolves [OF m_flatType]
          streetTypeCodeToName_dist_resolves [OF m_streetType]
          streetClassCodeToName_dist_resolves [OF m_streetClass]
          localityClassCodeToName_dist_resolves [OF m_localityClass]
          streetSuffixCodeToName_dist_resolves [OF m_streetSuffix]
          geocodeReliabilityCodeToName_dist_resolves [OF m_geocodeReliability]
          geocodeTypeCodeToName_dist_resolves [OF m_geocodeType]
          levelGeocodedCodeToName_dist_resolves [OF m_levelGeocoded])
qed

theorem lookup_helpers_resolve_witness:
  "levelTypeCodeToName ''L'' (emptyContext\<lparr>Authority_Code_LEVEL_TYPE_AUT_psv :=
        [\<lparr>CODE = ''L'', NAME = ''LEVEL''\<rparr>]\<rparr>) () = (Some ''LEVEL'', [])
   \<and> fst (levelTypeCodeToName_dist ''L'' (emptyContext\<lparr>Authority_Code_LEVEL_TYPE_AUT_psv :=
        [\<lparr>CODE = ''L'', NAME = ''LEVEL''\<rparr>]\<rparr>) () unsetMaps) = (Some ''LEVEL'', [])
   \<and> streetSuffixCodeToName ''N'' (emptyContext\<lparr>Authority_Code_LEVEL_TYPE_AUT_psv :=
        [\<lparr>CODE = ''L'', NAME = ''LEVEL''\<rparr>]\<rparr>)
      = (None, [Message (unknownCode ''Street Suffix'' ''N'') :: unit Diagnostic])
   \<and> fst (streetSuffixCodeToName_dist ''N'' (emptyContext\<lparr>Authority_Code_LEVEL_TYPE_AUT_psv :=
        [\<lparr>CODE = ''L'', NAME = ''LEVEL''\<rparr>]\<rparr>) unsetMaps)
      = (None, [Message (unknownCode ''Street Suffix'' ''N'') :: unit Diagnostic])
   \<and> resolvesCode [\<lparr>CODE = ''L'', NAME = ''LEVEL''\<rparr>] ''L''
        (Some ''LEVEL'', [] :: unit Diagnostic list)"
proof -
  let ?C = "emptyContext\<lparr>Authority_Code_LEVEL_TYPE_AUT_psv := [\<lparr>CODE = ''L'', NAME = ''LEVEL''\<rparr>]\<rparr>"
  have h: "mapsFor ?C unsetMaps"
    by (simp add: mapsFor_def memoFor_def unsetMaps_def)
  have e1: "levelTypeCodeToName ''L'' ?C () = (Some ''LEVEL'', [])"
    by (simp add: levelTypeCodeToName_def emptyContext_def)
  have e2: "fst (levelTypeCodeToName_dist ''L'' ?C () unsetMaps) = (Some ''LEVEL'', [])"
    by (simp add: levelTypeCodeToName_dist_def getLevelTypeMap_def Let_def unsetMaps_def
          buildCodeMap_def emptyContext_def)
  have e3: "streetSuffixCodeToName ''N'' ?C
      = (None, [Message (unknownCode ''Street Suffix'' ''N'') :: unit Diagnostic])"
    by (simp add: streetSuffixCodeToName_def emptyContext_def)
  have e4: "fst (streetSuffixCodeToName_dist ''N'' ?C unsetMaps)
      = (None, [Message (unknownCode ''Street Suffix'' ''N'') :: unit Diagnostic])"
    by (simp add: streetSuffixCodeToName_dist_def getStreetSuffixMap_def Let_def unsetMaps_def
          buildCodeMap_def emptyContext_def)
  have t: "Authority_Code_LEVEL_TYPE_AUT_psv ?C = [\<lparr>CODE = ''L'', NAME = ''LEVEL''\<rparr>]"
    by simp
  have r: "resolvesCode (Authority_Code_LEVEL_TYPE_AUT_psv ?C) ''L''
             (levelTypeCodeToName ''L'' ?C ())"
    using lookup_helpers_resolve [OF h, where c = "''L''" and address = "()"]
    by (rule conjunct1)
  have r': "resolvesCode [\<lparr>CODE = ''L'', NAME = ''LEVEL''\<rparr>] ''L''
        (Some ''LEVEL'', [] :: unit Diagnostic list)"
    using r by (simp only: t e1)
  show ?thesis
    by (intro conjI e1 e2 e3 e4 r')
qed

text \<open>
  Without the condition on the module state the property fails for the compiled
  helpers: after a lookup with a context whose level-type table
  defines \<open>L\<close>, a lookup of \<open>L\<close> with a context whose table is empty still answers
  \<open>LEVEL\<close>, from the memoised map, and logs nothing.
\<close>

theorem stale_lookup_map_counterexample:
  "fst (levelTypeCodeToName_dist ''L'' emptyContext ()
          (snd (levelTypeCodeToName_dist ''L''
                  (emptyContext\<lparr>Authority_Code_LEVEL_TYPE_AUT_psv :=
                      [\<lparr>CODE = ''L'', NAME = ''LEVEL''\<rparr>]\<rparr>) () unsetMaps)))
     = (Some ''LEVEL'', [])
   \<and> Authority_Code_LEVEL_TYPE_AUT_psv emptyContext = []
   \<and> \<not> resolvesCode (Authority_Code_LEVEL_TYPE_AUT_psv emptyContext) ''L''
         (fst (levelTypeCodeToName_dist ''L'' emptyContext ()
            (snd (levelTypeCodeToName_dist ''L''
                    (emptyContext\<lparr>Authority_Code_LEVEL_TYPE_AUT_psv :=
                        [\<lparr>CODE = ''L'', NAME = ''LEVEL''\<rparr>]\<rparr>) () unsetMaps))))"
  by (simp add: levelTypeCodeToName_dist_def getLevelTypeMap_def Let_def unsetMaps_def
        buildCodeMap_def emptyContext_def resolvesCode_def)

text \<open>
  C10. From the cleared module state, a helper of the compiled module and the helper
  of the same name in the TypeScript source return the same result for a code (the
  same name, the same diagnostics) exactly when the last entry of the helper's table
  that carries the code has the same name as the first one: so for every code that
  the table does not hold or holds once, and for every repeated code whose entries
  agree on the name.
\<close>

theorem find_and_map_helpers_agree:
  "((fst (levelTypeCodeToName_dist c context address (clearAuthorityCodeMaps st))
       = levelTypeCodeToName c context address)
     = (lastNameOf (Authority_Code_LEVEL_TYPE_AUT_psv context) c
          = firstNameOf (Authority_Code_LEVEL_TYPE_AUT_psv context) c))
   \<and> ((fst (flatTypeCodeToName_dist c context address (clearAuthorityCodeMaps st))
       = flatTypeCodeToName c context address)
     = (lastNameOf (Authority_Code_FLAT_TYPE_AUT_psv context) c
          = firstNameOf (Authority_Code_FLAT_TYPE_AUT_psv context) c))
   \<and> ((fst (streetTypeCodeToName_dist c context address (clearAuthorityCodeMaps st))
       = streetTypeCodeToName c context address)
     = (lastNameOf (Authority_Code_STREET_TYPE_AUT_psv context) c
          = firstNameOf (Authority_Code_STREET_TYPE_AUT_psv context) c))
   \<and> ((fst (streetClassCodeToName_dist c context address (clearAuthorityCodeMaps st))
       = streetClassCodeToName c context address)
     = (lastNameOf (Authority_Code_STREET_CLASS_AUT_psv context) c
          = firstNameOf (Authority_Code_STREET_CLASS_AUT_psv context) c))
   \<and> ((fst (localityClassCodeToName_dist c context (clearAuthorityCodeMaps st))
       = localityClassCodeToName c context)
     = (lastNameOf (Authority_Code_LOCALITY_CLASS_AUT_psv context) c
          = firstNameOf (Authority_Code_LOCALITY_CLASS_AUT_psv context) c))
   \<and> ((fst (streetSuffixCodeToName_dist c context (clearAuthorityCodeMaps st))
       = streetSuffixCodeToName c context)
     = (lastNameOf (Authority_Code_STREET_SUFFIX_AUT_psv context) c
          = firstNameOf (Authority_Code_STREET_SUFFIX_AUT_psv context) c))
   \<and> ((fst (geocodeReliabilityCodeToName_dist c context (clearAuthorityCodeMaps st))
       = geocodeReliabilityCodeToName c context)
     = (lastNameOf (Authority_Code_GEOCODE_RELIABILITY_AUT_psv context) c
          = firstNameOf (Authority_Code_GEOCODE_RELIABILITY_AUT_psv context) c))
   \<and> ((fst (geocodeTypeCodeToName_dist c context (clearAuthorityCodeMaps st))
       = geocodeTypeCodeToName c context)
     = (lastNameOf (Authority_Code_GEOCODE_TYPE_AUT_psv context) c
          = firstNameOf (Authority_Code_GEOCODE_TYPE_AUT_psv context) c))
   \<and> ((fst (levelGeocodedCodeToName_dist c context (clearAuthorityCodeMaps st))
       = levelGeocodedCodeToName c context)
     = (lastNameOf (Authority_Code_GEOCODED_LEVEL_TYPE_AUT_psv context) c
          = firstNameOf (Authority_Code_GEOCODED_LEVEL_TYPE_AUT_psv context) c))"
proof -
  have a_levelType: "((fst (levelTypeCodeToName_dist c context address (clearAuthorityCodeMaps st))
          = levelTypeCodeToName c context address)
        = (lastNameOf (Authority_Code_LEVEL_TYPE_AUT_psv context) c
             = firstNameOf (Authority_Code_LEVEL_TYPE_AUT_psv context) c))"
  proof -
    have m: "memoFor (Authority_Code_LEVEL_TYPE_AUT_psv context) (levelTypeMap (clearAuthorityCodeMaps st))"
      by (simp add: memoFor_def clearAuthorityCodeMaps_def)
    show ?thesis
      unfolding levelTypeCodeToName_dist_result [OF m] levelTypeCodeToName_def
      by (rule find_map_agree_iff)
  qed
  have a_flatType: "((fst (flatTypeCodeToName_dist c context address (clearAuthorityCodeMaps st))
          = flatTypeCodeToName c context address)
        = (lastNameOf (Authority_Code_FLAT_TYPE_AUT_psv context) c
             = firstNameOf (Authority_Code_FLAT_TYPE_AUT_psv context) c))"
  proof -
    have m: "memoFor (Authority_Code_FLAT_TYPE_AUT_psv context) (flatTypeMap (clearAuthorityCodeMaps st))"
      by (simp add: memoFor_def clearAuthorityCodeMaps_def)
    show ?thesis
      unfolding flatTypeCodeToName_dist_result [OF m] flatTypeCodeToName_def
      by (rule find_map_agree_iff)
  qed
  have a_streetType: "((fst (streetTypeCodeToName_dist c context address (clearAuthorityCodeMaps st))
          = streetTypeCodeToName c context address)
        = (lastNameOf (Authority_Code_STREET_TYPE_AUT_psv context) c
             = firstNameOf (Authority_Code_STREET_TYPE_AUT_psv context) c))"
  proof -
    have m: "memoFor (Authority_Code_STREET_TYPE_AUT_psv context) (streetTypeMap (clearAuthorityCodeMaps st))"
      by (simp add: memoFor_def clearAuthorityCodeMaps_def)
    show ?thesis
      unfolding streetTypeCodeToName_dist_result [OF m] streetTypeCodeToName_def
      by (rule find_map_agree_iff)
  qed
  have a_streetClass: "((fst (streetClassCodeToName_dist c context address (clearAuthorityCodeMaps st))
          = streetClassCodeToName c context address)
        = (lastNameOf (Authority_Code_STREET_CLASS_AUT_psv context) c
             = firstNameOf (Authority_Code_STREET_CLASS_AUT_psv context) c))"
  proof -
    have m: "memoFor (Authority_Code_STREET_CLASS_AUT_psv context) (streetClassMap (clearAuthorityCodeMaps st))"
      by (simp add: memoFor_def clearAuthorityCodeMaps_def)
    show ?thesis
      unfolding streetClassCodeToName_dist_result [OF m] streetClassCodeToName_def
      by (rule find_map_agree_iff)
  qed
  have a_localityClass: "((fst (localityClassCodeToName_dist c context (clearAuthorityCodeMaps st))
          = localityClassCodeToName c context)
        = (lastNameOf (Authority_Code_LOCALITY_CLASS_AUT_psv context) c
             = firstNameOf (Authority_Code_LOCALITY_CLASS_AUT_psv context) c))"
  proof -
    have m: "memoFor (Authority_Code_LOCALITY_CLASS_AUT_psv context) (localityClassMap (clearAuthorityCodeMaps st))"
      by (simp add: memoFor_def clearAuthorityCodeMaps_def)
    show ?thesis
      unfolding localityClassCodeToName_dist_result [OF m] localityClassCodeToName_def
      by (rule find_map_agree_iff)
  qed
  have a_streetSuffix: "((fst (streetSuffixCodeToName_dist c context (clearAuthorityCodeMaps st))
          = streetSuffixCodeToName c context)
        = (lastNameOf (Authority_Code_STREET_SUFFIX_AUT_psv context) c
             = firstNameOf (Authority_Code_STREET_SUFFIX_AUT_psv context) c))"
  proof -
    have m: "memoFor (Authority_Code_STREET_SUFFIX_AUT_psv context) (streetSuffixMap (clearAuthorityCodeMaps st))"
      by (simp add: memoFor_def clearAuthorityCodeMaps_def)
    show ?thesis
      unfolding streetSuffixCodeToName_dist_result [OF m] streetSuffixCodeToName_def
      by (rule find_map_agree_iff)
  qed
  have a_geocodeReliability: "((fst (geocodeReliabilityCodeToName_dist c context (clearAuthorityCodeMaps st))
          = geocodeReliabilityCodeToName c context)
        = (lastNameOf (Authority_Code_GEOCODE_RELIABILITY_AUT_psv context) c
             = firstNameOf (Authority_Code_GEOCODE_RELIABILITY_AUT_psv context) c))"
  proof -
    have m: "memoFor (Authority_Code_GEOCODE_RELIABILITY_AUT_psv context) (geocodeReliabilityMap (clearAuthorityCodeMaps st))"
      by (simp add: memoFor_def clearAuthorityCodeMaps_def)
    show ?thesis
      unfolding geocodeReliabilityCodeToName_dist_result [OF m] geocodeReliabilityCodeToName_def
      by (rule find_map_agree_iff)
  qed
  have a_geocodeType: "((fst (geocodeTypeCodeToName_dist c context (clearAuthorityCodeMaps st))
          = geocodeTypeCodeToName c context)
        = (lastNameOf (Authority_Code_GEOCODE_TYPE_AUT_psv context) c
             = firstNameOf (Authority_Code_GEOCODE_TYPE_AUT_psv context) c))"
  proof -
    have m: "memoFor (Authority_Code_GEOCODE_TYPE_AUT_psv context) (geocodeTypeMap (clearAuthorityCodeMaps st))"
      by (simp add: memoFor_def clearAuthorityCodeMaps_def)
    show ?thesis
      unfolding geocodeTypeCodeToName_dist_result [OF m] geocodeTypeCodeToName_def
      by (rule find_map_agree_iff)
  qed
  have a_levelGeocoded: "((fst (levelGeocodedCodeToName_dist c context (clearAuthorityCodeMaps st))
          = levelGeocodedCodeToName c context)
        = (lastNameOf (Authority_Code_GEOCODED_LEVEL_TYPE_AUT_psv context) c
             = firstNameOf (Authority_Code_GEOCODED_LEVEL_TYPE_AUT_psv context) c))"
  proof -
    have m: "memoFor (Authority_Code_GEOCODED_LEVEL_TYPE_AUT_psv context) (geocodedLevelTypeMap (clearAuthorityCodeMaps st))"
      by (simp add: memoFor_def clearAuthorityCodeMaps_def)
    show ?thesis
      unfolding levelGeocodedCodeToName_dist_result [OF m] levelGeocodedCodeToName_def
      by (rule find_map_agree_iff)
  qed
  show ?thesis
    by (intro conjI a_levelType a_flatType a_streetType a_streetClass a_localityClass a_streetSuffix a_geocodeReliability a_geocodeType a_levelGeocoded)
qed

theorem find_and_map_helpers_agree_witness:
  "fst (levelTypeCodeToName_dist ''B'' repeatingContext () (clearAuthorityCodeMaps unsetMaps))
       = (levelTypeCodeToName ''B'' repeatingContext () :: string option \<times> unit Diagnostic list)
   \<and> fst (flatTypeCodeToName_dist ''B'' repeatingContext () (clearAuthorityCodeMaps unsetMaps))
       = (flatTypeCodeToName ''B'' repeatingContext () :: string option \<times> unit Diagnostic list)
   \<and> fst (streetTypeCodeToName_dist ''B'' repeatingContext () (clearAuthorityCodeMaps unsetMaps))
       = (streetTypeCodeToName ''B'' repeatingContext () :: string option \<times> unit Diagnostic list)
   \<and> fst (streetClassCodeToName_dist ''B'' repeatingContext () (clearAuthorityCodeMaps unsetMaps))
       = (streetClassCodeToName ''B'' repeatingContext () :: string option \<times> unit Diagnostic list)
   \<and> fst (localityClassCodeToName_dist ''B'' repeatingContext (clearAuthorityCodeMaps unsetMaps))
       = (localityClassCodeToName ''B'' repeatingContext :: string option \<times> unit Diagnostic list)
   \<and> fst (streetSuffixCodeToName_dist ''B'' repeatingContext (clearAuthorityCodeMaps unsetMaps))
       = (streetSuffixCodeToName ''B'' repeatingContext :: string option \<times> unit Diagnostic list)
   \<and> fst (geocodeReliabilityCodeToName_dist ''B'' repeatingContext (clearAuthorityCodeMaps unsetMaps))
       = (geocodeReliabilityCodeToName ''B'' repeatingContext :: string option \<times> unit Diagnostic list)
   \<and> fst (geocodeTypeCodeToName_dist ''B'' repeatingContext (clearAuthorityCodeMaps unsetMaps))
       = (geocodeTypeCodeToName ''B'' repeatingContext :: string option \<times> unit Diagnostic list)
   \<and> fst (levelGeocodedCodeToName_dist ''B'' repeatingContext (clearAuthorityCodeMaps unsetMaps))
       = (levelGeocodedCodeToName ''B'' repeatingContext :: string option \<times> unit Diagnostic list)
   \<and> levelTypeCodeToName ''B'' repeatingContext () = (Some ''BASEMENT'', [])
   \<and> \<not> distinct (map CODE (Authority_Code_LEVEL_TYPE_AUT_psv repeatingContext))"
proof -
  have t: "\<And>T. lastNameOf [\<lparr>CODE = ''A'', NAME = ''FIRST''\<rparr>, \<lparr>CODE = ''A'', NAME = ''LAST''\<rparr>,
          \<lparr>CODE = ''B'', NAME = ''BASEMENT''\<rparr>, \<lparr>CODE = ''B'', NAME = ''BASEMENT''\<rparr>] ''B''
        = firstNameOf [\<lparr>CODE = ''A'', NAME = ''FIRST''\<rparr>, \<lparr>CODE = ''A'', NAME = ''LAST''\<rparr>,
          \<lparr>CODE = ''B'', NAME = ''BASEMENT''\<rparr>, \<lparr>CODE = ''B'', NAME = ''BASEMENT''\<rparr>] ''B''"
    by (simp add: lastNameOf_def firstNameOf_def)
  have e: "levelTypeCodeToName ''B'' repeatingContext () = (Some ''BASEMENT'', [])"
    by (simp add: levelTypeCodeToName_def repeatingContext_def)
  have d: "\<not> distinct (map CODE (Authority_Code_LEVEL_TYPE_AUT_psv repeatingContext))"
    by (simp add: repeatingContext_def)
  have a: "fst (levelTypeCodeToName_dist ''B'' repeatingContext () (clearAuthorityCodeMaps unsetMaps))
       = (levelTypeCodeToName ''B'' repeatingContext () :: string option \<times> unit Diagnostic list)
       \<and> fst (flatTypeCodeToName_dist ''B'' repeatingContext () (clearAuthorityCodeMaps unsetMaps))
       = (flatTypeCodeToName ''B'' repeatingContext () :: string option \<times> unit Diagnostic list)
       \<and> fst (streetTypeCodeToName_dist ''B'' repeatingContext () (clearAuthorityCodeMaps unsetMaps))
       = (streetTypeCodeToName ''B'' repeatingContext () :: string option \<times> unit Diagnostic list)
       \<and> fst (streetClassCodeToName_dist ''B'' repeatingContext () (clearAuthorityCodeMaps unsetMaps))
       = (streetClassCodeToName ''B'' repeatingContext () :: string option \<times> unit Diagnostic list)
       \<and> fst (localityClassCodeToName_dist ''B'' repeatingContext (clearAuthorityCodeMaps unsetMaps))
       = (localityClassCodeToName ''B'' repeatingContext :: string option \<times> unit Diagnostic list)
       \<and> fst (streetSuffixCodeToName_dist ''B'' repeatingContext (clearAuthorityCodeMaps unsetMaps))
       = (streetSuffixCodeToName ''B'' repeatingContext :: string option \<times> unit Diagnostic list)
       \<and> fst (geocodeReliabilityCodeToName_dist ''B'' repeatingContext (clearAuthorityCodeMaps unsetMaps))
       = (geocodeReliabilityCodeToName ''B'' repeatingContext :: string option \<times> unit Diagnostic list)
       \<and> fst (geocodeTypeCodeToName_dist ''B'' repeatingContext (clearAuthorityCodeMaps unsetMaps))
       = (geocodeTypeCodeToName ''B'' repeatingContext :: string option \<times> unit Diagnostic list)
       \<and> fst (levelGeocodedCodeToName_dist ''B'' repeatingContext (clearAuthorityCodeMaps unsetMaps))
       = (levelGeocodedCodeToName ''B'' repeatingContext :: string option \<times> unit Diagnostic list)"
    using find_and_map_helpers_agree [of "''B''" repeatingContext "()" unsetMaps]
    by (simp add: repeatingContext_def t)
  show ?thesis
    using a e d by simp
qed

text \<open>
  For a table in which a code appears more than once the two helpers differ:
  \<open>Array.prototype.find\<close> answers with the first entry that carries the code, the
  \<open>Map\<close> with the last.
\<close>

theorem duplicate_code_counterexample:
  "levelTypeCodeToName ''A''
       (emptyContext\<lparr>Authority_Code_LEVEL_TYPE_AUT_psv :=
          [\<lparr>CODE = ''A'', NAME = ''FIRST''\<rparr>, \<lparr>CODE = ''A'', NAME = ''LAST''\<rparr>]\<rparr>) ()
     = (Some ''FIRST'', [])
   \<and> fst (levelTypeCodeToName_dist ''A''
       (emptyContext\<lparr>Authority_Code_LEVEL_TYPE_AUT_psv :=
          [\<lparr>CODE = ''A'', NAME = ''FIRST''\<rparr>, \<lparr>CODE = ''A'', NAME = ''LAST''\<rparr>]\<rparr>) ()
       (clearAuthorityCodeMaps unsetMaps))
     = (Some ''LAST'', [])"
  by (simp add: levelTypeCodeToName_def levelTypeCodeToName_dist_def getLevelTypeMap_def Let_def
        clearAuthorityCodeMaps_def unsetMaps_def buildCodeMap_def emptyContext_def)


end
